theory Spec2Isabelle
  imports Complex_Main
begin

section \<open>Data model (models.py)\<close>

text \<open>
  Python values are modelled as follows.  A \<^verbatim>\<open>str\<close> is a \<^typ>\<open>string\<close>, read as the
  list of its code points, which are below 256.  A finite \<^verbatim>\<open>float\<close> is the real number it
  stands for, and every arithmetic operation on floats rounds its exact result to binary64
  (see below).  A \<^verbatim>\<open>datetime.date\<close> is its (year, month, day) triple, compared
  lexicographically as Python compares dates.  Exceptions are values of type \<open>error\<close>,
  returned as \<open>Inl\<close>.
\<close>

datatype error =
    NameError string
  | ValidationError string

record date =
  year :: nat
  month :: nat
  day :: nat

definition date_lt :: "date \<Rightarrow> date \<Rightarrow> bool" where
  "date_lt a b =
     (year a < year b \<or>
      (year a = year b \<and> (month a < month b \<or> (month a = month b \<and> day a < day b))))"

definition date_le :: "date \<Rightarrow> date \<Rightarrow> bool" where
  "date_le a b = (date_lt a b \<or> (year a = year b \<and> month a = month b \<and> day a = day b))"

text \<open>The calendar check of the \<^verbatim>\<open>date(y, m, d)\<close> constructor.\<close>

definition is_leap :: "nat \<Rightarrow> bool" where
  "is_leap y = (y mod 4 = 0 \<and> (y mod 100 \<noteq> 0 \<or> y mod 400 = 0))"

definition days_in_month :: "nat \<Rightarrow> nat \<Rightarrow> nat" where
  "days_in_month y m =
     (if m = 2 then (if is_leap y then 29 else 28)
      else if m = 4 \<or> m = 6 \<or> m = 9 \<or> m = 11 then 30 else 31)"

definition date_valid :: "date \<Rightarrow> bool" where
  "date_valid d =
     (1 \<le> year d \<and> year d \<le> 9999 \<and> 1 \<le> month d \<and> month d \<le> 12 \<and>
      1 \<le> day d \<and> day d \<le> days_in_month (year d) (month d))"

subsection \<open>Binary floating point\<close>

text \<open>
  A Python \<^verbatim>\<open>float\<close> is an IEEE 754 binary64 number.  A finite one is a rational number
  \<open>m * 2 ^ e\<close> with a significand \<open>m\<close> of at most 53 bits and \<open>e\<close> not below -1074; it is
  modelled as that real.  A numeral of the source, a parsed text and the result of every
  \<^verbatim>\<open>+\<close>, \<^verbatim>\<open>-\<close> and \<^verbatim>\<open>*\<close> is the exact value rounded to the nearest such number, a tie
  going to the even significand (\<open>round64\<close>); comparisons and \<^verbatim>\<open>abs\<close> are exact.
  Infinities and NaN are not modelled: where the rounded result is beyond the largest finite
  number, Python gives an infinity and the model keeps the rounded real.

  \<open>bit_length n\<close> is the number of binary digits of a positive integer, \<open>exponent2 a\<close>
  the integer \<open>e\<close> with \<open>2 ^ e \<le> a < 2 ^ (e + 1)\<close> for a positive \<open>a\<close>.
\<close>

function bit_length :: "int \<Rightarrow> int" where
  "bit_length n = (if n \<le> 0 then 0 else 1 + bit_length (n div 2))"
  by pat_completeness auto
termination
  by (relation "measure nat") auto

declare bit_length.simps [simp del]

definition pow2 :: "int \<Rightarrow> real" where
  "pow2 k = (if 0 \<le> k then 2 ^ nat k else 1 / 2 ^ nat (- k))"

definition exponent2 :: "real \<Rightarrow> int" where
  "exponent2 a =
     (if 1 \<le> a then bit_length \<lfloor>a\<rfloor> - 1 else - bit_length (\<lceil>1 / a\<rceil> - 1))"

definition round_half_even :: "real \<Rightarrow> int" where
  "round_half_even y =
     (let n = \<lfloor>y\<rfloor>; r = y - of_int n in
      if r < 1 / 2 then n
      else if 1 / 2 < r then n + 1
      else if even n then n else n + 1)"

text \<open>
  \<open>quantum a\<close> is the distance between neighbouring binary64 numbers at the magnitude
  \<open>a\<close>: 52 binary places below the leading digit, and never below \<open>2 ^ -1074\<close>.
\<close>

definition quantum :: "real \<Rightarrow> real" where
  "quantum a = pow2 (max (exponent2 a) (- 1022) - 52)"

definition round64 :: "real \<Rightarrow> real" where
  "round64 x =
     (if x = 0 then 0
      else
        (let a = \<bar>x\<bar>;
             q = quantum a;
             m = of_int (round_half_even (a / q)) * q
         in if x < 0 then - m else m))"

text \<open>The three arithmetic operations of the source on floats.\<close>

definition fadd :: "real \<Rightarrow> real \<Rightarrow> real" where
  "fadd a b = round64 (a + b)"

definition fsub :: "real \<Rightarrow> real \<Rightarrow> real" where
  "fsub a b = round64 (a - b)"

definition fmul :: "real \<Rightarrow> real \<Rightarrow> real" where
  "fmul a b = round64 (a * b)"

record LineItem =
  description :: string
  quantity :: real
  unit_price :: real
  line_total :: real

record Invoice =
  invoice_number :: string
  invoice_date :: date
  due_date :: "date option"
  seller_name :: string
  seller_address :: "string option"
  seller_tax_id :: "string option"
  buyer_name :: string
  buyer_address :: "string option"
  buyer_tax_id :: "string option"
  currency :: string
  net_total :: real
  tax_amount :: real
  gross_total :: real
  payment_terms :: "string option"
  line_items :: "LineItem list"

record InvoiceValidationResult =
  invoice_id :: string
  is_valid :: bool
  errors :: "string list"

record ValidationSummary =
  total_invoices :: int
  valid_invoices :: int
  invalid_invoices :: int
  error_counts :: "string \<rightharpoonup> int"

subsection \<open>String helpers\<close>

text \<open>
  \<^verbatim>\<open>str.lower()\<close> and \<^verbatim>\<open>str.upper()\<close> work character by character.  Below 256 the
  cased letters are A to Z and the letters from 0xC0 to 0xDE (without the sign 0xD7), whose
  small forms stand 32 places higher.  \<^verbatim>\<open>lower\<close> maps each capital to its small form and
  changes nothing else.  \<^verbatim>\<open>upper\<close> maps each small form to its capital and the sharp
  s (0xDF) to the two letters SS.  The capitals of the micro sign (0xB5) and of the y with
  diaeresis (0xFF) are code points above 255, which a \<^typ>\<open>char\<close> cannot hold: the model
  leaves these two letters as they are.  Neither the letter nor its capital is an ASCII
  letter, so a comparison of the result with an ASCII text comes out as in Python.
\<close>

definition uppercase_letters :: string where
  "uppercase_letters =
     ''ABCDEFGHIJKLMNOPQRSTUVWXYZ'' @
     [CHR 0xC0, CHR 0xC1, CHR 0xC2, CHR 0xC3, CHR 0xC4, CHR 0xC5, CHR 0xC6, CHR 0xC7,
      CHR 0xC8, CHR 0xC9, CHR 0xCA, CHR 0xCB, CHR 0xCC, CHR 0xCD, CHR 0xCE, CHR 0xCF,
      CHR 0xD0, CHR 0xD1, CHR 0xD2, CHR 0xD3, CHR 0xD4, CHR 0xD5, CHR 0xD6,
      CHR 0xD8, CHR 0xD9, CHR 0xDA, CHR 0xDB, CHR 0xDC, CHR 0xDD, CHR 0xDE]"

definition lowercase_letters :: string where
  "lowercase_letters =
     ''abcdefghijklmnopqrstuvwxyz'' @
     [CHR 0xE0, CHR 0xE1, CHR 0xE2, CHR 0xE3, CHR 0xE4, CHR 0xE5, CHR 0xE6, CHR 0xE7,
      CHR 0xE8, CHR 0xE9, CHR 0xEA, CHR 0xEB, CHR 0xEC, CHR 0xED, CHR 0xEE, CHR 0xEF,
      CHR 0xF0, CHR 0xF1, CHR 0xF2, CHR 0xF3, CHR 0xF4, CHR 0xF5, CHR 0xF6,
      CHR 0xF8, CHR 0xF9, CHR 0xFA, CHR 0xFB, CHR 0xFC, CHR 0xFD, CHR 0xFE]"

definition char_upper :: "char \<Rightarrow> string" where
  "char_upper c =
     (if c = CHR 0xDF then ''SS''
      else case map_of (zip lowercase_letters uppercase_letters) c of
             Some u \<Rightarrow> [u]
           | None \<Rightarrow> [c])"

definition char_lower :: "char \<Rightarrow> char" where
  "char_lower c =
     (case map_of (zip uppercase_letters lowercase_letters) c of Some l \<Rightarrow> l | None \<Rightarrow> c)"

definition upper :: "string \<Rightarrow> string" where
  "upper s = concat (map char_upper s)"

definition lower :: "string \<Rightarrow> string" where
  "lower s = map char_lower s"

text \<open>
  \<^verbatim>\<open>str.strip()\<close> removes leading and trailing whitespace; these are the characters
  below 256 for which \<^verbatim>\<open>str.isspace()\<close> holds.
\<close>

definition whitespace :: string where
  "whitespace = [CHR 0x09, CHR 0x0A, CHR 0x0B, CHR 0x0C, CHR 0x0D, CHR 0x1C, CHR 0x1D, CHR 0x1E,
                 CHR 0x1F, CHR 0x20, CHR 0x85, CHR 0xA0]"

definition is_space :: "char \<Rightarrow> bool" where
  "is_space c = (c \<in> set whitespace)"

definition strip :: "string \<Rightarrow> string" where
  "strip s = rev (dropWhile is_space (rev (dropWhile is_space s)))"

text \<open>\<^verbatim>\<open>str(n)\<close> of a non-negative integer, as the f-strings of the validator print an index.\<close>

definition digit_char :: "nat \<Rightarrow> char" where
  "digit_char d = ''0123456789'' ! d"

function str_nat :: "nat \<Rightarrow> string" where
  "str_nat n = (if n < 10 then [digit_char n] else str_nat (n div 10) @ [digit_char (n mod 10)])"
  by pat_completeness auto
termination
  by (relation "measure id") auto

declare str_nat.simps [simp del]

subsection \<open>Construction of a LineItem\<close>

text \<open>
  The class validator of \<^verbatim>\<open>line_total\<close>: it computes the expected total and returns the
  given value in every branch.
\<close>

definition validate_line_total :: "real \<Rightarrow> real \<Rightarrow> real \<Rightarrow> real" where
  "validate_line_total v qty price =
     (let expected = fmul qty price in
      if \<bar>fsub expected v\<bar> > round64 (5 / 100) then v else v)"

text \<open>
  \<^verbatim>\<open>LineItem(description=..., quantity=..., unit_price=..., line_total=...)\<close>: each numeric
  field is declared \<^verbatim>\<open>Field(..., ge=0)\<close>, so a negative value raises a ValidationError
  (here it carries the name of the first offending field).
\<close>

definition LineItem_init :: "string \<Rightarrow> real \<Rightarrow> real \<Rightarrow> real \<Rightarrow> error + LineItem" where
  "LineItem_init d q p t =
     (if \<not> (q \<ge> 0) then Inl (ValidationError ''quantity'')
      else if \<not> (p \<ge> 0) then Inl (ValidationError ''unit_price'')
      else if \<not> (t \<ge> 0) then Inl (ValidationError ''line_total'')
      else Inr \<lparr>description = d, quantity = q, unit_price = p,
                line_total = validate_line_total t q p\<rparr>)"

subsection \<open>Construction of an Invoice\<close>

text \<open>
  The class validator of \<^verbatim>\<open>currency\<close> normalises the code and returns it in both
  branches.
\<close>

definition validate_currency :: "string \<Rightarrow> string" where
  "validate_currency v0 =
     (let v = strip (upper v0) in
      if v \<notin> {''INR'', ''EUR'', ''USD'', ''GBP''} then v else v)"

text \<open>
  \<^verbatim>\<open>Invoice(...)\<close> and \<^verbatim>\<open>Invoice.parse_obj(obj)\<close>: the keyword arguments are given
  as a record of the same shape, whose \<^verbatim>\<open>line_items\<close> hold the field values of each
  item as supplied.  Every item is built by the LineItem constructor; the first
  ValidationError is the result.
\<close>

fun LineItems_init :: "LineItem list \<Rightarrow> error + LineItem list" where
  "LineItems_init [] = Inr []"
| "LineItems_init (raw # raws) =
     (case LineItem_init (description raw) (quantity raw) (unit_price raw) (line_total raw) of
        Inl e \<Rightarrow> Inl e
      | Inr item \<Rightarrow>
          (case LineItems_init raws of
             Inl e \<Rightarrow> Inl e
           | Inr items \<Rightarrow> Inr (item # items)))"

definition Invoice_init :: "Invoice \<Rightarrow> error + Invoice" where
  "Invoice_init raw =
     (case LineItems_init (line_items raw) of
        Inl e \<Rightarrow> Inl e
      | Inr items \<Rightarrow>
          Inr (raw\<lparr>currency := validate_currency (currency raw), line_items := items\<rparr>))"

section \<open>The validation engine (validator.py)\<close>

definition date_truthy :: "date \<Rightarrow> bool" where
  "date_truthy d = True"

definition check_completeness :: "Invoice \<Rightarrow> string list" where
  "check_completeness invoice =
     (if invoice_number invoice = [] then [''missing_field: invoice_number''] else []) @
     (if \<not> date_truthy (invoice_date invoice) then [''missing_field: invoice_date''] else []) @
     (if seller_name invoice = [] then [''missing_field: seller_name''] else []) @
     (if buyer_name invoice = [] then [''missing_field: buyer_name''] else [])"

definition min_date :: date where
  "min_date = \<lparr>year = 2000, month = 1, day = 1\<rparr>"

definition max_date :: date where
  "max_date = \<lparr>year = 2100, month = 1, day = 1\<rparr>"

definition allowed_currencies :: "string set" where
  "allowed_currencies = {''INR'', ''EUR'', ''USD'', ''GBP''}"

definition in_date_range :: "date \<Rightarrow> bool" where
  "in_date_range d = (date_le min_date d \<and> date_le d max_date)"

text \<open>The loop \<^verbatim>\<open>for idx, item in enumerate(invoice.line_items)\<close>, started at index \<open>idx\<close>.\<close>

fun line_item_errors :: "nat \<Rightarrow> LineItem list \<Rightarrow> string list" where
  "line_item_errors idx [] = []"
| "line_item_errors idx (item # items) =
     (if quantity item < 0
      then [''format_error: line_'' @ str_nat idx @ ''_quantity_negative''] else []) @
     (if unit_price item < 0
      then [''format_error: line_'' @ str_nat idx @ ''_unit_price_negative''] else []) @
     (if line_total item < 0
      then [''format_error: line_'' @ str_nat idx @ ''_line_total_negative''] else []) @
     line_item_errors (Suc idx) items"

definition check_format_and_ranges :: "Invoice \<Rightarrow> string list" where
  "check_format_and_ranges invoice =
     (if \<not> in_date_range (invoice_date invoice)
      then [''format_error: invoice_date_out_of_range''] else []) @
     (case due_date invoice of
        None \<Rightarrow> []
      | Some dd \<Rightarrow>
          if \<not> in_date_range dd then [''format_error: due_date_out_of_range''] else []) @
     (if upper (currency invoice) \<notin> allowed_currencies
      then [''format_error: currency_invalid''] else []) @
     (if net_total invoice < 0 then [''format_error: net_total_negative''] else []) @
     (if tax_amount invoice < 0 then [''format_error: tax_amount_negative''] else []) @
     (if gross_total invoice < 0 then [''format_error: gross_total_negative''] else []) @
     line_item_errors 0 (line_items invoice)"

text \<open>The numeral \<^verbatim>\<open>0.05\<close> of the source is the binary64 number nearest to 5/100.\<close>

definition tolerance :: real where
  "tolerance = round64 (5 / 100)"

text \<open>
  \<^verbatim>\<open>sum(li.line_total for li in items)\<close>: the items are added from left to right, from 0,
  each addition rounded.  (From version 3.12 on, CPython carries a correction term through
  the additions; for a list of one or two items the result is the same.)
\<close>

definition sum_lines :: "LineItem list \<Rightarrow> real" where
  "sum_lines items = foldl fadd 0 (map line_total items)"

definition check_business_rules :: "Invoice \<Rightarrow> string list" where
  "check_business_rules invoice =
     (if line_items invoice \<noteq> [] \<and>
         \<bar>fsub (sum_lines (line_items invoice)) (net_total invoice)\<bar> > tolerance
      then [''business_rule_failed: line_items_net_mismatch''] else []) @
     (if \<bar>fsub (fadd (net_total invoice) (tax_amount invoice)) (gross_total invoice)\<bar> > tolerance
      then [''business_rule_failed: totals_mismatch''] else []) @
     (case due_date invoice of
        None \<Rightarrow> []
      | Some dd \<Rightarrow>
          if date_lt dd (invoice_date invoice)
          then [''business_rule_failed: due_before_invoice_date''] else [])"

text \<open>The three per-invoice passes, in the order the first loop extends \<^verbatim>\<open>errors\<close>.\<close>

definition invoice_errors :: "Invoice \<Rightarrow> string list" where
  "invoice_errors invc =
     check_completeness invc @ check_format_and_ranges invc @ check_business_rules invc"

text \<open>
  \<^verbatim>\<open>error_counter[e] += 1\<close> on a \<^verbatim>\<open>Counter\<close>: a missing key counts as 0.
\<close>

definition counter_incr :: "(string \<rightharpoonup> int) \<Rightarrow> string \<Rightarrow> (string \<rightharpoonup> int)" where
  "counter_incr c e = c(e \<mapsto> (case c e of None \<Rightarrow> 0 | Some n \<Rightarrow> n) + 1)"

text \<open>First pass: per-invoice rules.  The state is (\<^verbatim>\<open>results\<close>, \<^verbatim>\<open>error_counter\<close>).\<close>

fun first_pass ::
  "Invoice list \<Rightarrow> InvoiceValidationResult list \<times> (string \<rightharpoonup> int) \<Rightarrow>
   InvoiceValidationResult list \<times> (string \<rightharpoonup> int)" where
  "first_pass [] st = st"
| "first_pass (invc # invcs) (results, error_counter) =
     (let errs = invoice_errors invc;
          error_counter' = foldl counter_incr error_counter errs
      in first_pass invcs
           (results @ [\<lparr>invoice_id = invoice_number invc,
                        is_valid = (length errs = 0),
                        errors = errs\<rparr>],
            error_counter'))"

type_synonym dup_key = "string \<times> string \<times> date"

text \<open>
  Second pass: the loop over \<^verbatim>\<open>zip(results, invoices)\<close>.  The source mutates the result
  object in place; the model returns the list of results as it stands after the loop,
  together with the counter.
\<close>

fun second_pass ::
  "(InvoiceValidationResult \<times> Invoice) list \<Rightarrow> (dup_key \<rightharpoonup> string) \<Rightarrow> (string \<rightharpoonup> int) \<Rightarrow>
   InvoiceValidationResult list \<times> (string \<rightharpoonup> int)" where
  "second_pass [] seen error_counter = ([], error_counter)"
| "second_pass ((res, invc) # rest) seen error_counter =
     (let key = (lower (seller_name invc), invoice_number invc, invoice_date invc) in
      if seen key \<noteq> None then
        (let res' = res\<lparr>errors := errors res @ [''anomaly: duplicate_invoice''],
                         is_valid := False\<rparr>;
             (rs, c) = second_pass rest seen
                         (counter_incr error_counter ''anomaly: duplicate_invoice'')
         in (res' # rs, c))
      else
        (let (rs, c) = second_pass rest (seen(key \<mapsto> invoice_number invc)) error_counter
         in (res # rs, c)))"

definition validate_invoices ::
  "Invoice list \<Rightarrow> InvoiceValidationResult list \<times> ValidationSummary" where
  "validate_invoices invoices =
     (let (results0, counter0) = first_pass invoices ([], Map.empty);
          (results, error_counter) = second_pass (zip results0 invoices) Map.empty counter0;
          total = int (length results);
          invalid = int (length (filter (\<lambda>r. \<not> is_valid r) results));
          valid = total - invalid
      in (results,
          \<lparr>total_invoices = total, valid_invoices = valid, invalid_invoices = invalid,
           error_counts = error_counter\<rparr>))"

section \<open>Shared parsing utilities (utils.py)\<close>

text \<open>
  The regular expressions of the source, by name.  Matching itself is the work of Python's
  \<^verbatim>\<open>re\<close> module, which is not part of the repository: the functions below take
  \<^verbatim>\<open>re.search\<close> as a parameter \<open>search\<close>, which maps a pattern and a text to the
  groups of the first match (\<open>m n\<close> is \<^verbatim>\<open>m.group(n)\<close>) or to \<open>None\<close>.  Every
  pattern is searched with \<^verbatim>\<open>re.IGNORECASE\<close> except \<open>Number\<close>.
  \<^item> \<open>Invoice_number\<close>: \<^verbatim>\<open>(invoice\s*(no\.?|number|#)\s*[:\-]?\s*)(\S+)\<close>
  \<^item> \<open>Invoice_date\<close>: \<^verbatim>\<open>(invoice\s*date\s*[:\-]?\s*)([0-9./\-\sA-Za-z]+)\<close>
  \<^item> \<open>Bare_date\<close>: \<^verbatim>\<open>(date\s*[:\-]?\s*)([0-9./\-\sA-Za-z]+)\<close>
  \<^item> \<open>Due_date\<close>: \<^verbatim>\<open>(due\s*date\s*[:\-]?\s*)([0-9./\-\sA-Za-z]+)\<close>
  \<^item> \<open>Currency\<close>: \<^verbatim>\<open>\b(INR|EUR|USD|GBP)\b\<close>
  \<^item> \<open>Seller\<close>: \<^verbatim>\<open>\b(seller|supplier)\b\<close>
  \<^item> \<open>Buyer\<close>: \<^verbatim>\<open>\b(buyer|customer|bill to|ship to)\b\<close>
  \<^item> \<open>Tax_id\<close>: \<^verbatim>\<open>(GSTIN|VAT\s*ID|Tax\s*ID)\s*[:\-]?\s*(\S+)\<close>
  \<^item> \<open>Number\<close>: \<^verbatim>\<open>([0-9.,]+)\<close>
  \<^item> \<open>Payment_terms\<close>: \<^verbatim>\<open>(payment\s*terms\s*[:\-]?\s*)(.+)\<close>
  \<^item> \<open>Terms\<close>: \<^verbatim>\<open>(terms\s*[:\-]?\s*)(.+)\<close>
\<close>

datatype regex =
    Invoice_number | Invoice_date | Bare_date | Due_date | Currency | Seller | Buyer
  | Tax_id | Number | Payment_terms | Terms

type_synonym match = "nat \<Rightarrow> string"

type_synonym re_search = "regex \<Rightarrow> string \<Rightarrow> match option"

definition DATE_FORMATS :: "string list" where
  "DATE_FORMATS = [''%Y-%m-%d'', ''%d/%m/%Y'', ''%d-%m-%Y'', ''%d.%m.%Y'', ''%d %b %Y'', ''%d %B %Y'']"

text \<open>
  \<open>parse_date\<close>: the first format that \<^verbatim>\<open>datetime.strptime\<close> accepts.  The parameter
  \<open>strptime\<close> returns \<open>None\<close> where Python raises ValueError; of the datetime only the
  date is kept, as every caller takes \<^verbatim>\<open>dt.date()\<close>.
\<close>

fun first_format :: "(string \<Rightarrow> string \<Rightarrow> date option) \<Rightarrow> string \<Rightarrow> string list \<Rightarrow> date option" where
  "first_format strptime v [] = None"
| "first_format strptime v (fmt # fmts) =
     (case strptime v fmt of Some d \<Rightarrow> Some d | None \<Rightarrow> first_format strptime v fmts)"

definition parse_date :: "(string \<Rightarrow> string \<Rightarrow> date option) \<Rightarrow> string \<Rightarrow> date option" where
  "parse_date strptime v = first_format strptime (strip v) DATE_FORMATS"

fun find_first_match :: "re_search \<Rightarrow> regex list \<Rightarrow> string \<Rightarrow> match option" where
  "find_first_match search [] text = None"
| "find_first_match search (pattern # patterns) text =
     (case search pattern text of Some m \<Rightarrow> Some m | None \<Rightarrow> find_first_match search patterns text)"

text \<open>
  \<open>parse_float_safe\<close>: commas removed, whitespace stripped, then Python's \<^verbatim>\<open>float\<close>,
  here the parameter \<open>pyfloat\<close> (\<open>None\<close> where Python raises ValueError).
\<close>

definition parse_float_safe :: "(string \<Rightarrow> real option) \<Rightarrow> string \<Rightarrow> real option" where
  "parse_float_safe pyfloat raw = pyfloat (strip (filter (\<lambda>c. c \<noteq> CHR '','') raw))"

text \<open>
  \<^verbatim>\<open>str.splitlines()\<close>: the text is cut at each line boundary (a carriage return followed
  by a line feed counts once); a boundary at the very end opens no further line.
\<close>

definition linebreaks :: string where
  "linebreaks = [CHR 0x0A, CHR 0x0B, CHR 0x0C, CHR 0x0D, CHR 0x1C, CHR 0x1D, CHR 0x1E, CHR 0x85]"

fun splitlines_from :: "string \<Rightarrow> string \<Rightarrow> string list" where
  "splitlines_from cur [] = (if cur = [] then [] else [rev cur])"
| "splitlines_from cur [c] =
     (if c \<in> set linebreaks then [rev cur] else [rev (c # cur)])"
| "splitlines_from cur (c # d # cs) =
     (if c = CHR 0x0D \<and> d = CHR 0x0A then rev cur # splitlines_from [] cs
      else if c \<in> set linebreaks then rev cur # splitlines_from [] (d # cs)
      else splitlines_from (c # cur) (d # cs))"

definition splitlines :: "string \<Rightarrow> string list" where
  "splitlines text = splitlines_from [] text"

text \<open>\<^verbatim>\<open>sep.join(parts)\<close>.\<close>

fun join :: "string \<Rightarrow> string list \<Rightarrow> string" where
  "join sep [] = []"
| "join sep [p] = p"
| "join sep (p # q # ps) = p @ sep @ join sep (q # ps)"

text \<open>\<^verbatim>\<open>re.sub(r"\s+", " ", line)\<close>: every maximal run of whitespace becomes one space.\<close>

fun collapse_spaces_from :: "bool \<Rightarrow> string \<Rightarrow> string" where
  "collapse_spaces_from in_run [] = []"
| "collapse_spaces_from in_run (c # cs) =
     (if is_space c then
        (if in_run then collapse_spaces_from True cs
         else CHR '' '' # collapse_spaces_from True cs)
      else c # collapse_spaces_from False cs)"

definition collapse_spaces :: "string \<Rightarrow> string" where
  "collapse_spaces s = collapse_spaces_from False s"

definition clean_text :: "string \<Rightarrow> string" where
  "clean_text text =
     (let lines = map (\<lambda>line. strip (collapse_spaces line)) (splitlines text)
      in join [CHR 0x0A] (filter (\<lambda>line. line \<noteq> []) lines))"

text \<open>\<^verbatim>\<open>sub in s\<close> on strings.\<close>

fun contains :: "string \<Rightarrow> string \<Rightarrow> bool" where
  "contains sub [] = (sub = [])"
| "contains sub (c # cs) = (take (length sub) (c # cs) = sub \<or> contains sub cs)"

text \<open>
  \<^verbatim>\<open>re.split(r"\s{2,}", s)\<close>: the text is cut at every maximal run of two or more
  whitespace characters.  \<open>cur\<close> is the segment read so far and \<open>ws\<close> the whitespace run
  that follows it, both reversed.
\<close>

fun split_spaces_from :: "string \<Rightarrow> string \<Rightarrow> string \<Rightarrow> string list" where
  "split_spaces_from cur ws [] =
     (if 2 \<le> length ws then [rev cur, []] else [rev (ws @ cur)])"
| "split_spaces_from cur ws (c # cs) =
     (if is_space c then split_spaces_from cur (c # ws) cs
      else if 2 \<le> length ws then rev cur # split_spaces_from [c] [] cs
      else split_spaces_from (c # ws @ cur) [] cs)"

definition split_spaces :: "string \<Rightarrow> string list" where
  "split_spaces s = split_spaces_from [] [] s"

text \<open>\<^verbatim>\<open>s.split(",")[0]\<close>: the text before the first comma.\<close>

definition before_comma :: "string \<Rightarrow> string" where
  "before_comma s = takeWhile (\<lambda>c. c \<noteq> CHR '','') s"

text \<open>\<^verbatim>\<open>os.path.basename(path)\<close>: the text after the last slash.\<close>

definition basename :: "string \<Rightarrow> string" where
  "basename path = rev (takeWhile (\<lambda>c. c \<noteq> CHR ''/'') (rev path))"

text \<open>
  Truthiness, as \<^verbatim>\<open>x or y\<close> and \<^verbatim>\<open>if x\<close> use it: \<open>None\<close>, the float 0.0 and the empty
  string are false.
\<close>

definition or_float :: "real option \<Rightarrow> real \<Rightarrow> real" where
  "or_float x y = (case x of None \<Rightarrow> y | Some v \<Rightarrow> if v = 0 then y else v)"

definition or_str :: "string option \<Rightarrow> string \<Rightarrow> string" where
  "or_str x y = (case x of None \<Rightarrow> y | Some v \<Rightarrow> if v = [] then y else v)"

definition truthy_str :: "string option \<Rightarrow> bool" where
  "truthy_str x = (case x of None \<Rightarrow> False | Some v \<Rightarrow> v \<noteq> [])"

section \<open>Extraction (extractor.py)\<close>

text \<open>
  The names bound at module level of extractor.py: its imports and its functions.  A
  function body that reads any other name (that is not a builtin) raises NameError.
\<close>

definition module_globals :: "string list" where
  "module_globals =
     [''json'', ''os'', ''date'', ''List'', ''Dict'', ''Any'', ''Optional'', ''pdfplumber'',
      ''Invoice'', ''LineItem'', ''clean_text'', ''find_first_match'', ''parse_date'',
      ''parse_float_safe'', ''extract_text_from_pdf'', ''extract_invoice_number'',
      ''extract_dates'', ''extract_currency'', ''extract_parties'', ''extract_totals'',
      ''extract_payment_terms'', ''extract_line_items'', ''extract_invoice_from_pdf'',
      ''extract_from_dir'', ''write_invoices_to_json'']"

definition load_global :: "string \<Rightarrow> error + unit" where
  "load_global name = (if name \<in> set module_globals then Inr () else Inl (NameError name))"

text \<open>
  \<open>extract_text_from_pdf\<close>, from the texts of the pages as pdfplumber gives them
  (\<^verbatim>\<open>page.extract_text() or ""\<close>).
\<close>

definition extract_text_from_pdf :: "string list \<Rightarrow> string" where
  "extract_text_from_pdf pages_text = clean_text (join [CHR 0x0A] pages_text)"

text \<open>
  \<open>extract_invoice_number\<close> evaluates \<^verbatim>\<open>re.IGNORECASE\<close> for the call of
  \<open>find_first_match\<close>; the module does not import \<^verbatim>\<open>re\<close> (the other extractors import
  it locally).
\<close>

definition extract_invoice_number :: "re_search \<Rightarrow> string \<Rightarrow> error + string option" where
  "extract_invoice_number search text =
     (case load_global ''re'' of
        Inl e \<Rightarrow> Inl e
      | Inr _ \<Rightarrow>
          (case find_first_match search [Invoice_number] text of
             Some m \<Rightarrow> Inr (Some (strip (m 3)))
           | None \<Rightarrow> Inr None))"

definition extract_dates ::
  "re_search \<Rightarrow> (string \<Rightarrow> string \<Rightarrow> date option) \<Rightarrow> string \<Rightarrow> date option \<times> date option" where
  "extract_dates search strptime text =
     (let inv_date =
            (case find_first_match search [Invoice_date, Bare_date] text of
               Some m \<Rightarrow> parse_date strptime (m 2)
             | None \<Rightarrow> None);
          due =
            (case find_first_match search [Due_date] text of
               Some m \<Rightarrow> parse_date strptime (m 2)
             | None \<Rightarrow> None)
      in (inv_date, due))"

definition extract_currency :: "re_search \<Rightarrow> string \<Rightarrow> string" where
  "extract_currency search text =
     (case search Currency text of Some m \<Rightarrow> upper (m 1) | None \<Rightarrow> ''INR'')"

text \<open>
  \<open>grab_block\<close>: the non-blank lines among the (up to) four lines from \<open>start_idx\<close> on,
  stripped and joined by spaces.
\<close>

definition grab_block :: "string list \<Rightarrow> nat \<Rightarrow> string" where
  "grab_block lines start_idx =
     join '' '' (filter (\<lambda>line. line \<noteq> [])
                   (map strip (take (min (start_idx + 4) (length lines) - start_idx)
                                 (drop start_idx lines))))"

text \<open>
  The two party loops: at the first line the pattern matches, the block after it gives name
  and address if it is not empty, and the loop ends there either way.
\<close>

fun party_loop ::
  "re_search \<Rightarrow> regex \<Rightarrow> string list \<Rightarrow> nat \<Rightarrow> string list \<Rightarrow> string option \<times> string option" where
  "party_loop search pattern lines i [] = (None, None)"
| "party_loop search pattern lines i (line # rest) =
     (if search pattern line \<noteq> None then
        (let block = grab_block lines (i + 1) in
         if block \<noteq> [] then (Some (before_comma block), Some block) else (None, None))
      else party_loop search pattern lines (Suc i) rest)"

text \<open>
  The tax-id loop; the state is (\<^verbatim>\<open>seller_tax_id\<close>, \<^verbatim>\<open>buyer_tax_id\<close>), written
  \<open>seller_id\<close> and \<open>buyer_id\<close>.
\<close>

fun tax_id_loop ::
  "re_search \<Rightarrow> string list \<Rightarrow> string option \<times> string option \<Rightarrow> string option \<times> string option" where
  "tax_id_loop search [] st = st"
| "tax_id_loop search (line # rest) (seller_id, buyer_id) =
     (case search Tax_id line of
        None \<Rightarrow> tax_id_loop search rest (seller_id, buyer_id)
      | Some m \<Rightarrow>
          if \<not> truthy_str seller_id then tax_id_loop search rest (Some (m 2), buyer_id)
          else if \<not> truthy_str buyer_id then (seller_id, Some (m 2))
          else tax_id_loop search rest (seller_id, buyer_id))"

definition extract_parties ::
  "re_search \<Rightarrow> string \<Rightarrow>
   string option \<times> string option \<times> string option \<times> string option \<times> string option \<times> string option" where
  "extract_parties search text =
     (let lines = splitlines text;
          (s_name, s_address) = party_loop search Seller lines 0 lines;
          (b_name, b_address) = party_loop search Buyer lines 0 lines;
          (s_tax_id, b_tax_id) = tax_id_loop search lines (None, None)
      in (s_name, s_address, s_tax_id, b_name, b_address, b_tax_id))"

text \<open>
  The loop of \<open>extract_totals\<close>; the state is (\<^verbatim>\<open>net_total\<close>, \<^verbatim>\<open>tax_amount\<close>,
  \<^verbatim>\<open>gross_total\<close>), written \<open>net\<close>, \<open>tax\<close> and \<open>gross\<close>.
\<close>

fun totals_loop ::
  "re_search \<Rightarrow> (string \<Rightarrow> real option) \<Rightarrow> string list \<Rightarrow>
   real option \<times> real option \<times> real option \<Rightarrow> real option \<times> real option \<times> real option" where
  "totals_loop search pyfloat [] st = st"
| "totals_loop search pyfloat (line # rest) (net, tax, gross) =
     (let l = lower line;
          net' =
            (if contains ''net total'' l \<or> contains ''subtotal'' l then
               (case search Number line of
                  Some m \<Rightarrow> parse_float_safe pyfloat (m 1) | None \<Rightarrow> net)
             else net);
          tax' =
            (if contains ''tax'' l \<or> contains ''vat'' l then
               (case search Number line of
                  Some m \<Rightarrow> parse_float_safe pyfloat (m 1) | None \<Rightarrow> tax)
             else tax);
          gross' =
            (if contains ''total'' l \<and>
                (contains ''grand'' l \<or> contains ''amount payable'' l \<or>
                 contains ''invoice total'' l \<or> ''total'' = strip l) then
               (case search Number line of
                  Some m \<Rightarrow> parse_float_safe pyfloat (m 1) | None \<Rightarrow> gross)
             else gross)
      in totals_loop search pyfloat rest (net', tax', gross'))"

definition extract_totals ::
  "re_search \<Rightarrow> (string \<Rightarrow> real option) \<Rightarrow> string \<Rightarrow> real option \<times> real option \<times> real option" where
  "extract_totals search pyfloat text =
     totals_loop search pyfloat (splitlines text) (None, None, None)"

definition extract_payment_terms :: "re_search \<Rightarrow> string \<Rightarrow> string option" where
  "extract_payment_terms search text =
     (case find_first_match search [Payment_terms, Terms] text of
        Some m \<Rightarrow> Some (strip (m 2))
      | None \<Rightarrow> None)"

text \<open>The header search of \<open>extract_line_items\<close>: the index of the first header line.\<close>

fun header_index_from :: "nat \<Rightarrow> string list \<Rightarrow> nat option" where
  "header_index_from i [] = None"
| "header_index_from i (line # rest) =
     (let l = lower line in
      if contains ''description'' l \<and> (contains ''qty'' l \<or> contains ''quantity'' l)
      then Some i else header_index_from (Suc i) rest)"

text \<open>
  The item loop over the lines after the header; \<open>items\<close> is the list built so far.  The
  LineItem constructor may raise, which ends the extraction.
\<close>

fun items_loop ::
  "(string \<Rightarrow> real option) \<Rightarrow> string list \<Rightarrow> LineItem list \<Rightarrow> error + LineItem list" where
  "items_loop pyfloat [] items = Inr items"
| "items_loop pyfloat (line # rest) items =
     (let l = lower line in
      if contains ''subtotal'' l \<or> contains ''net total'' l \<or> contains ''total'' l
      then Inr items
      else
        (let parts = split_spaces (strip line) in
         if length parts < 3 then items_loop pyfloat rest items
         else
           (let desc = parts ! 0;
                qty = or_float (parse_float_safe pyfloat (parts ! 1)) 0;
                unit = or_float (parse_float_safe pyfloat (parts ! 2)) 0;
                total = or_float (parse_float_safe pyfloat (last parts)) (fmul qty unit)
            in if desc \<noteq> [] then
                 (case LineItem_init desc qty unit total of
                    Inl e \<Rightarrow> Inl e
                  | Inr item \<Rightarrow> items_loop pyfloat rest (items @ [item]))
               else items_loop pyfloat rest items)))"

definition extract_line_items :: "(string \<Rightarrow> real option) \<Rightarrow> string \<Rightarrow> error + LineItem list" where
  "extract_line_items pyfloat text =
     (let lines = splitlines text in
      case header_index_from 0 lines of
        None \<Rightarrow> Inr []
      | Some header_index \<Rightarrow> items_loop pyfloat (drop (header_index + 1) lines) [])"

text \<open>
  \<open>extract_invoice_from_pdf\<close>, in the order of the source.  Besides the library functions
  it takes \<open>today\<close>, the value of \<^verbatim>\<open>date.today()\<close>, the path and the page texts.
  Local variables that share a name with a field of the record are shortened
  (\<open>cur\<close>, \<open>due\<close>, \<open>s_name\<close>, \<open>net_opt\<close>, \<open>items\<close>, ...).
\<close>

definition extract_invoice_from_pdf ::
  "re_search \<Rightarrow> (string \<Rightarrow> string \<Rightarrow> date option) \<Rightarrow> (string \<Rightarrow> real option) \<Rightarrow> date \<Rightarrow>
   string \<Rightarrow> string list \<Rightarrow> error + Invoice" where
  "extract_invoice_from_pdf search strptime pyfloat today path pages_text =
     (let text = extract_text_from_pdf pages_text;
          cur = extract_currency search text;
          (inv_date, due) = extract_dates search strptime text;
          (s_name, s_address, s_tax_id, b_name, b_address, b_tax_id) =
            extract_parties search text;
          (net_opt, tax_opt, gross_opt) = extract_totals search pyfloat text;
          terms = extract_payment_terms search text
      in case extract_line_items pyfloat text of
           Inl e \<Rightarrow> Inl e
         | Inr items \<Rightarrow>
             (case extract_invoice_number search text of
                Inl e \<Rightarrow> Inl e
              | Inr number_opt \<Rightarrow>
                  (let number = or_str number_opt (basename path);
                       inv_date = (case inv_date of None \<Rightarrow> today | Some d \<Rightarrow> d);
                       net =
                         (case net_opt of
                            None \<Rightarrow> if items \<noteq> [] then sum_lines items else 0
                          | Some n \<Rightarrow> n);
                       tax = (case tax_opt of None \<Rightarrow> 0 | Some t \<Rightarrow> t);
                       gross =
                         (case gross_opt of
                            None \<Rightarrow> fadd (or_float (Some net) 0) (or_float (Some tax) 0)
                          | Some g \<Rightarrow> g)
                   in Invoice_init
                        \<lparr>invoice_number = number, invoice_date = inv_date,
                         due_date = due,
                         seller_name = or_str s_name ''UNKNOWN_SELLER'',
                         seller_address = s_address, seller_tax_id = s_tax_id,
                         buyer_name = or_str b_name ''UNKNOWN_BUYER'',
                         buyer_address = b_address, buyer_tax_id = b_tax_id,
                         currency = cur, net_total = net, tax_amount = tax,
                         gross_total = gross, payment_terms = terms,
                         line_items = items\<rparr>)))"

text \<open>
  A reading of decimal numerals as Python's \<^verbatim>\<open>float\<close> reads them: an optional sign, then
  digits with an optional point (digits on at least one side of it), then an optional
  exponent (\<^verbatim>\<open>e\<close> or \<^verbatim>\<open>E\<close>, an optional sign, digits); single underscores may stand
  between digits; the value is rounded to binary64.  It stands for the parameter
  \<open>pyfloat\<close> when the extractor is run on sample lines.  The words \<^verbatim>\<open>inf\<close>,
  \<^verbatim>\<open>infinity\<close> and \<^verbatim>\<open>nan\<close>, which Python reads as values that are not modelled, are
  left unparsed here.  \<^verbatim>\<open>float\<close> also skips surrounding whitespace; the text that
  \<open>parse_float_safe\<close> passes has none.
\<close>

definition digits :: string where
  "digits = ''0123456789''"

definition digit_val :: "char \<Rightarrow> nat" where
  "digit_val c = length (takeWhile (\<lambda>d. d \<noteq> c) digits)"

definition nat_of_digits :: "string \<Rightarrow> nat" where
  "nat_of_digits s = foldl (\<lambda>a c. 10 * a + digit_val c) 0 s"

definition int_of_digits :: "string \<Rightarrow> int" where
  "int_of_digits s = foldl (\<lambda>a c. 10 * a + int (digit_val c)) 0 s"

fun digitpart :: "string \<Rightarrow> bool" where
  "digitpart [] = False"
| "digitpart [c] = (c \<in> set digits)"
| "digitpart (c # d # cs) =
     (c \<in> set digits \<and> (if d = CHR ''_'' then digitpart cs else digitpart (d # cs)))"

definition digits_only :: "string \<Rightarrow> string" where
  "digits_only s = filter (\<lambda>c. c \<noteq> CHR ''_'') s"

definition pow10 :: "int \<Rightarrow> real" where
  "pow10 k = (if 0 \<le> k then 10 ^ nat k else 1 / 10 ^ nat (- k))"

definition mantissa :: "string \<Rightarrow> real option" where
  "mantissa s =
     (let ip = takeWhile (\<lambda>c. c \<noteq> CHR ''.'') s;
          rest = dropWhile (\<lambda>c. c \<noteq> CHR ''.'') s;
          fp = drop 1 rest
      in if (rest = [] \<and> digitpart ip) \<or>
            (rest \<noteq> [] \<and> digitpart ip \<and> (fp = [] \<or> digitpart fp)) \<or>
            (rest \<noteq> [] \<and> ip = [] \<and> digitpart fp)
         then Some (of_int (int_of_digits (digits_only ip)) +
                    of_int (int_of_digits (digits_only fp)) / 10 ^ length (digits_only fp))
         else None)"

definition signed_digits :: "string \<Rightarrow> int option" where
  "signed_digits s =
     (case s of
        [] \<Rightarrow> None
      | c # cs \<Rightarrow>
          if c = CHR ''-'' then
            (if digitpart cs then Some (- int_of_digits (digits_only cs)) else None)
          else if c = CHR ''+'' then
            (if digitpart cs then Some (int_of_digits (digits_only cs)) else None)
          else if digitpart s then Some (int_of_digits (digits_only s)) else None)"

definition unsigned_decimal :: "string \<Rightarrow> real option" where
  "unsigned_decimal s =
     (let m = takeWhile (\<lambda>c. c \<noteq> CHR ''e'' \<and> c \<noteq> CHR ''E'') s;
          rest = dropWhile (\<lambda>c. c \<noteq> CHR ''e'' \<and> c \<noteq> CHR ''E'') s
      in if rest = [] then mantissa m
         else
           (case mantissa m of
              None \<Rightarrow> None
            | Some v \<Rightarrow>
                (case signed_digits (drop 1 rest) of
                   None \<Rightarrow> None
                 | Some k \<Rightarrow> Some (v * pow10 k))))"

definition float_decimal :: "string \<Rightarrow> real option" where
  "float_decimal s =
     map_option round64
       (case s of
          [] \<Rightarrow> None
        | c # cs \<Rightarrow>
            if c = CHR ''-'' then map_option uminus (unsigned_decimal cs)
            else if c = CHR ''+'' then unsigned_decimal cs
            else unsigned_decimal s)"

section \<open>Notions used to state the properties\<close>

text \<open>The key that the second pass computes for an invoice.\<close>

definition duplicate_key :: "Invoice \<Rightarrow> dup_key" where
  "duplicate_key invc = (lower (seller_name invc), invoice_number invc, invoice_date invc)"

text \<open>The result the first pass builds for one invoice.\<close>

definition per_record_result :: "Invoice \<Rightarrow> InvoiceValidationResult" where
  "per_record_result invc =
     \<lparr>invoice_id = invoice_number invc, is_valid = (invoice_errors invc = []),
      errors = invoice_errors invc\<rparr>"

text \<open>What the second pass does to the result of a record whose key was seen before.\<close>

definition mark_duplicate :: "InvoiceValidationResult \<Rightarrow> InvoiceValidationResult" where
  "mark_duplicate res =
     res\<lparr>errors := errors res @ [''anomaly: duplicate_invoice''], is_valid := False\<rparr>"

text \<open>Reading a \<^verbatim>\<open>Counter\<close>: a missing key reads as 0.\<close>

definition counter_get :: "(string \<rightharpoonup> int) \<Rightarrow> string \<Rightarrow> int" where
  "counter_get c e = (case c e of None \<Rightarrow> 0 | Some n \<Rightarrow> n)"

text \<open>Sample records: a fully valid invoice, and variations of it.\<close>

definition sample_invoice :: Invoice where
  "sample_invoice =
     \<lparr>invoice_number = ''INV-2'', invoice_date = \<lparr>year = 2024, month = 2, day = 1\<rparr>,
      due_date = None, seller_name = ''Acme'', seller_address = None, seller_tax_id = None,
      buyer_name = ''Beta'', buyer_address = None, buyer_tax_id = None, currency = ''USD'',
      net_total = 100, tax_amount = 18, gross_total = 118, payment_terms = None,
      line_items = []\<rparr>"

definition sample_bad_twin :: Invoice where
  "sample_bad_twin = sample_invoice\<lparr>seller_name := ''acme'', currency := ''XYZ''\<rparr>"

text \<open>
  Two records whose seller names differ only in case, with a letter outside ASCII:
  \<^verbatim>\<open>CAF\<close> followed by U+00C9, and \<^verbatim>\<open>caf\<close> followed by U+00E9.
\<close>

definition sample_cafe :: Invoice where
  "sample_cafe = sample_invoice\<lparr>seller_name := ''CAF'' @ [CHR 0xC9]\<rparr>"

definition sample_cafe_twin :: Invoice where
  "sample_cafe_twin =
     sample_invoice\<lparr>seller_name := ''caf'' @ [CHR 0xE9], buyer_name := ''Gamma''\<rparr>"

text \<open>
  Records with one line item, for the tolerance of the line-item sum.  The line totals are
  the binary64 numbers that Python reads from \<^verbatim>\<open>10.05\<close>, \<^verbatim>\<open>100.05\<close> and
  \<^verbatim>\<open>100.0501\<close>.
\<close>

definition one_item :: "real \<Rightarrow> real \<Rightarrow> Invoice" where
  "one_item net amount =
     sample_invoice\<lparr>net_total := net, tax_amount := 0, gross_total := net,
       line_items := [\<lparr>description = ''Widget'', quantity = 1, unit_price = amount,
                       line_total = amount\<rparr>]\<rparr>"


definition sample_100_05 :: Invoice where
  "sample_100_05 = one_item 100 (7040392854975283 / 70368744177664)"


text \<open>The f-string of a line-item error, and the three names it is used with.\<close>

definition line_error :: "nat \<Rightarrow> string \<Rightarrow> string" where
  "line_error idx name = ''format_error: line_'' @ str_nat idx @ name"

definition line_error_names :: "string list" where
  "line_error_names = [''_quantity_negative'', ''_unit_price_negative'', ''_line_total_negative'']"

definition sample_2100 :: Invoice where
  "sample_2100 = sample_invoice\<lparr>invoice_date := \<lparr>year = 2100, month = 6, day = 15\<rparr>,
      due_date := Some \<lparr>year = 2100, month = 12, day = 31\<rparr>\<rparr>"

definition sample_with_items :: Invoice where
  "sample_with_items =
     sample_invoice\<lparr>net_total := 10, tax_amount := 0, gross_total := 10,
       line_items := [\<lparr>description = ''Widget'', quantity = 2, unit_price = 5, line_total = 10\<rparr>]\<rparr>"

text \<open>
  The number of occurrences of an error code in the error lists of a list of results, and the
  invariant that a counter stores no count below 1.
\<close>

definition occurrences :: "InvoiceValidationResult list \<Rightarrow> string \<Rightarrow> int" where
  "occurrences rs e = (\<Sum>r\<leftarrow>rs. int (count_list (errors r) e))"

definition positive_counts :: "(string \<rightharpoonup> int) \<Rightarrow> bool" where
  "positive_counts c = (\<forall>x n. c x = Some n \<longrightarrow> 0 < n)"

text \<open>The checks of the format-and-range pass ahead of the line-item loop, with their codes.\<close>

definition format_checks :: "Invoice \<Rightarrow> (bool \<times> string) list" where
  "format_checks invc =
     [(\<not> in_date_range (invoice_date invc), ''format_error: invoice_date_out_of_range''),
      (case due_date invc of None \<Rightarrow> False | Some dd \<Rightarrow> \<not> in_date_range dd,
       ''format_error: due_date_out_of_range''),
      (upper (currency invc) \<notin> allowed_currencies, ''format_error: currency_invalid''),
      (net_total invc < 0, ''format_error: net_total_negative''),
      (tax_amount invc < 0, ''format_error: tax_amount_negative''),
      (gross_total invc < 0, ''format_error: gross_total_negative'')]"

definition format_error_names :: "string list" where
  "format_error_names =
     [''format_error: invoice_date_out_of_range'', ''format_error: due_date_out_of_range'',
      ''format_error: currency_invalid'', ''format_error: net_total_negative'',
      ''format_error: tax_amount_negative'', ''format_error: gross_total_negative'']"

text \<open>Sample texts for the line-item extractor: a header line, an item line, a subtotal line.\<close>

definition sample_header :: string where
  "sample_header = ''Description   Qty   Unit Price   Total''"

definition sample_zero_total_text :: string where
  "sample_zero_total_text =
     sample_header @ [CHR 0x0A] @ ''Free sample   2   5.00   0.00'' @ [CHR 0x0A] @ ''Subtotal 0.00''"

definition sample_negative_text :: string where
  "sample_negative_text =
     sample_header @ [CHR 0x0A] @ ''Refund   -2   5.00   10.00'' @ [CHR 0x0A] @ ''Subtotal 10.00''"

text \<open>
  A text has a double space when two whitespace characters stand side by side; a clean line
  is not empty, has no double space and neither begins nor ends with whitespace.
\<close>

fun double_space :: "string \<Rightarrow> bool" where
  "double_space (c # d # cs) = ((is_space c \<and> is_space d) \<or> double_space (d # cs))"
| "double_space [c] = False"
| "double_space [] = False"

definition clean_line :: "string \<Rightarrow> bool" where
  "clean_line l = (l \<noteq> [] \<and> \<not> double_space l \<and> \<not> is_space (hd l) \<and> \<not> is_space (last l))"

lemmas eval_defs =
  invoice_errors_def check_completeness_def check_format_and_ranges_def
  check_business_rules_def duplicate_key_def lower_def upper_def char_lower_def char_upper_def
  lowercase_letters_def uppercase_letters_def allowed_currencies_def in_date_range_def date_le_def
  date_lt_def min_date_def max_date_def tolerance_def counter_incr_def date_truthy_def
  sum_lines_def

section \<open>Rounding to binary64\<close>


























section \<open>The two passes of validate_invoices\<close>

lemma first_pass_eq:
  "first_pass invcs (rs, c) =
     (rs @ map per_record_result invcs, foldl counter_incr c (concat (map invoice_errors invcs)))"
  by (induction invcs arbitrary: rs c) (simp_all add: per_record_result_def Let_def)

lemma fst_second_pass_Cons:
  "fst (second_pass ((res, invc) # rest) seen c) =
     (if seen (duplicate_key invc) \<noteq> None
      then mark_duplicate res #
           fst (second_pass rest seen (counter_incr c ''anomaly: duplicate_invoice''))
      else res # fst (second_pass rest (seen(duplicate_key invc \<mapsto> invoice_number invc)) c))"
  by (simp add: Let_def case_prod_beta mark_duplicate_def duplicate_key_def)

lemma snd_second_pass_Cons:
  "snd (second_pass ((res, invc) # rest) seen c) =
     (if seen (duplicate_key invc) \<noteq> None
      then snd (second_pass rest seen (counter_incr c ''anomaly: duplicate_invoice''))
      else snd (second_pass rest (seen(duplicate_key invc \<mapsto> invoice_number invc)) c))"
  by (simp add: Let_def case_prod_beta duplicate_key_def)

lemma second_pass_length: "length (fst (second_pass ps seen c)) = length ps"
proof (induction ps arbitrary: seen c)
  case Nil
  show ?case by simp
next
  case (Cons p ps)
  obtain res invc where p: "p = (res, invc)" by (cases p)
  show ?case unfolding p fst_second_pass_Cons using Cons.IH by simp
qed

text \<open>
  The second pass marks position \<open>i\<close> exactly when its key is already in \<open>seen\<close> or
  belongs to an earlier position of the list.
\<close>

lemma second_pass_nth:
  "i < length ps \<Longrightarrow>
   fst (second_pass ps seen c) ! i =
     (if seen (duplicate_key (snd (ps ! i))) \<noteq> None \<or>
         (\<exists>j<i. duplicate_key (snd (ps ! j)) = duplicate_key (snd (ps ! i)))
      then mark_duplicate (fst (ps ! i)) else fst (ps ! i))"
proof (induction ps arbitrary: seen c i)
  case Nil
  then show ?case by simp
next
  case (Cons p ps)
  obtain res invc where p: "p = (res, invc)" by (cases p)
  show ?case
  proof (cases i)
    case 0
    then show ?thesis
      unfolding p fst_second_pass_Cons by simp
  next
    case (Suc k)
    with Cons.prems have k: "k < length ps" by simp
    have ex: "(\<exists>j<Suc k. duplicate_key (snd (((res, invc) # ps) ! j)) = K) \<longleftrightarrow>
              (duplicate_key invc = K \<or> (\<exists>j<k. duplicate_key (snd (ps ! j)) = K))" for K
      by (auto simp: less_Suc_eq_0_disj)
    show ?thesis
      unfolding p Suc fst_second_pass_Cons ex
      using Cons.IH [OF k] by auto
  qed
qed

lemma results_eq:
  "fst (validate_invoices invcs) =
     fst (second_pass (zip (map per_record_result invcs) invcs) Map.empty
            (foldl counter_incr Map.empty (concat (map invoice_errors invcs))))"
  by (simp add: validate_invoices_def first_pass_eq case_prod_beta Let_def)

lemma results_length: "length (fst (validate_invoices invcs)) = length invcs"
  by (simp add: results_eq second_pass_length)

lemma results_nth:
  assumes "i < length invcs"
  shows "fst (validate_invoices invcs) ! i =
     (if \<exists>j<i. duplicate_key (invcs ! j) = duplicate_key (invcs ! i)
      then mark_duplicate (per_record_result (invcs ! i))
      else per_record_result (invcs ! i))"
proof -
  let ?ps = "zip (map per_record_result invcs) invcs"
  have len: "i < length ?ps" using assms by simp
  have "\<And>j. j < i \<Longrightarrow> snd (?ps ! j) = invcs ! j" using assms by simp
  then have ex: "(\<exists>j<i. duplicate_key (snd (?ps ! j)) = K) \<longleftrightarrow>
             (\<exists>j<i. duplicate_key (invcs ! j) = K)" for K
    by auto
  show ?thesis
    unfolding results_eq second_pass_nth [OF len] ex
    using assms by auto
qed

lemma first_pass_nth:
  "i < length invcs \<Longrightarrow>
   fst (first_pass invcs ([], Map.empty)) ! i = per_record_result (invcs ! i)"
  by (simp add: first_pass_eq)

lemma summary_fields:
  "total_invoices (snd (validate_invoices invcs)) = int (length (fst (validate_invoices invcs)))"
  "invalid_invoices (snd (validate_invoices invcs)) =
     int (length (filter (\<lambda>r. \<not> is_valid r) (fst (validate_invoices invcs))))"
  "valid_invoices (snd (validate_invoices invcs)) =
     total_invoices (snd (validate_invoices invcs)) - invalid_invoices (snd (validate_invoices invcs))"
  by (simp_all add: validate_invoices_def case_prod_beta Let_def)

lemma length_filter_split:
  "int (length (filter P xs)) + int (length (filter (\<lambda>r. \<not> P r) xs)) = int (length xs)"
proof -
  have "length (filter P xs) + length (filter (\<lambda>r. \<not> P r) xs) = length xs"
    by (rule sum_length_filter_compl)
  then show ?thesis by linarith
qed

lemma duplicate_key_eq:
  "duplicate_key a = duplicate_key b \<longleftrightarrow>
     lower (seller_name a) = lower (seller_name b) \<and> invoice_number a = invoice_number b \<and>
     invoice_date a = invoice_date b"
  by (simp add: duplicate_key_def)

lemma sample_keys:
  "duplicate_key sample_bad_twin = duplicate_key sample_invoice"
  by (simp add: sample_bad_twin_def sample_invoice_def eval_defs)

lemma sample_errors:
  "invoice_errors sample_invoice = []"
  "invoice_errors sample_bad_twin = [''format_error: currency_invalid'']"
  unfolding sample_bad_twin_def sample_invoice_def
  by code_simp+

lemma cafe_keys:
  "lower (seller_name sample_cafe) = ''caf'' @ [CHR 0xE9]"
  "lower (seller_name sample_cafe_twin) = ''caf'' @ [CHR 0xE9]"
  "invoice_number sample_cafe_twin = invoice_number sample_cafe"
  "invoice_date sample_cafe_twin = invoice_date sample_cafe"
  "seller_name sample_cafe \<noteq> seller_name sample_cafe_twin"
  unfolding sample_cafe_def sample_cafe_twin_def sample_invoice_def
  by code_simp+

lemma cafe_errors:
  "invoice_errors sample_cafe = []"
  "invoice_errors sample_cafe_twin = []"
  "invoice_number sample_cafe = ''INV-2''"
  unfolding sample_cafe_def sample_cafe_twin_def sample_invoice_def
  by code_simp+

section \<open>Duplicate detection\<close>

text \<open>
  Claim C2.  For every input list and every position \<open>i\<close> of it: the first pass leaves at
  \<open>i\<close> the per-record result of the invoice (its number, its per-record errors, and valid
  exactly when there are none).  If no earlier position agrees with \<open>i\<close> on the three
  components of the duplicate key (the seller name lower-cased by \<^verbatim>\<open>str.lower\<close>, the invoice
  number, the invoice date), \<^verbatim>\<open>validate_invoices\<close> returns that result unchanged; if an
  earlier position agrees on all three, the returned result has
  \<^verbatim>\<open>anomaly: duplicate_invoice\<close> appended to the per-record errors and \<^verbatim>\<open>is_valid\<close>
  false, whatever the per-record checks produced.
\<close>

theorem duplicate_pass_marks_later_records:
  assumes "i < length invcs"
  shows "fst (first_pass invcs ([], Map.empty)) ! i =
      \<lparr>invoice_id = invoice_number (invcs ! i), is_valid = (invoice_errors (invcs ! i) = []),
       errors = invoice_errors (invcs ! i)\<rparr> \<and>
    ((\<forall>j<i. \<not> (lower (seller_name (invcs ! j)) = lower (seller_name (invcs ! i)) \<and>
               invoice_number (invcs ! j) = invoice_number (invcs ! i) \<and>
               invoice_date (invcs ! j) = invoice_date (invcs ! i))) \<longrightarrow>
       fst (validate_invoices invcs) ! i = fst (first_pass invcs ([], Map.empty)) ! i) \<and>
    ((\<exists>j<i. lower (seller_name (invcs ! j)) = lower (seller_name (invcs ! i)) \<and>
            invoice_number (invcs ! j) = invoice_number (invcs ! i) \<and>
            invoice_date (invcs ! j) = invoice_date (invcs ! i)) \<longrightarrow>
       errors (fst (validate_invoices invcs) ! i) =
         errors (fst (first_pass invcs ([], Map.empty)) ! i) @ [''anomaly: duplicate_invoice''] \<and>
       is_valid (fst (validate_invoices invcs) ! i) = False \<and>
       invoice_id (fst (validate_invoices invcs) ! i) = invoice_number (invcs ! i))"
  unfolding results_nth [OF assms] first_pass_nth [OF assms] duplicate_key_eq
  by (auto simp: mark_duplicate_def per_record_result_def)

theorem duplicate_pass_marks_later_records_witness:
  "(1::nat) < length [sample_cafe, sample_cafe_twin] \<and>
   seller_name sample_cafe \<noteq> seller_name sample_cafe_twin \<and>
   lower (seller_name sample_cafe) = lower (seller_name sample_cafe_twin) \<and>
   invoice_number sample_cafe = invoice_number sample_cafe_twin \<and>
   invoice_date sample_cafe = invoice_date sample_cafe_twin \<and>
   invoice_errors sample_cafe_twin = [] \<and>
   fst (validate_invoices [sample_cafe, sample_cafe_twin]) ! 0 =
     \<lparr>invoice_id = ''INV-2'', is_valid = True, errors = []\<rparr> \<and>
   errors (fst (validate_invoices [sample_cafe, sample_cafe_twin]) ! 1) =
     [''anomaly: duplicate_invoice''] \<and>
   is_valid (fst (validate_invoices [sample_cafe, sample_cafe_twin]) ! 1) = False"
proof -
  let ?l = "[sample_cafe, sample_cafe_twin]"
  have len1: "(1::nat) < length ?l" and len0: "(0::nat) < length ?l" by simp_all
  have key: "\<exists>j<1::nat. lower (seller_name (?l ! j)) = lower (seller_name (?l ! 1)) \<and>
               invoice_number (?l ! j) = invoice_number (?l ! 1) \<and>
               invoice_date (?l ! j) = invoice_date (?l ! 1)"
    by (simp add: cafe_keys)
  have nokey: "\<forall>j<0::nat. \<not> (lower (seller_name (?l ! j)) = lower (seller_name (?l ! 0)) \<and>
               invoice_number (?l ! j) = invoice_number (?l ! 0) \<and>
               invoice_date (?l ! j) = invoice_date (?l ! 0))"
    by simp
  note t1 = duplicate_pass_marks_later_records [OF len1]
  note t0 = duplicate_pass_marks_later_records [OF len0]
  from t0 have f0: "fst (first_pass ?l ([], Map.empty)) ! 0 =
      \<lparr>invoice_id = ''INV-2'', is_valid = True, errors = []\<rparr>"
    by (simp add: cafe_errors)
  from t0 nokey have "fst (validate_invoices ?l) ! 0 = fst (first_pass ?l ([], Map.empty)) ! 0"
    by blast
  with f0 have r0: "fst (validate_invoices ?l) ! 0 =
      \<lparr>invoice_id = ''INV-2'', is_valid = True, errors = []\<rparr>"
    by simp
  from t1 have f1: "errors (fst (first_pass ?l ([], Map.empty)) ! 1) = []"
    by (simp add: cafe_errors)
  from t1 key have
    "errors (fst (validate_invoices ?l) ! 1) =
       errors (fst (first_pass ?l ([], Map.empty)) ! 1) @ [''anomaly: duplicate_invoice''] \<and>
     is_valid (fst (validate_invoices ?l) ! 1) = False"
    by blast
  with f1 have r1: "errors (fst (validate_invoices ?l) ! 1) = [''anomaly: duplicate_invoice''] \<and>
     is_valid (fst (validate_invoices ?l) ! 1) = False"
    by simp
  from len1 r0 r1 show ?thesis
    by (simp add: cafe_keys cafe_errors)
qed

section \<open>Validity flag and summary counts\<close>

text \<open>
  Claim C3.  After both passes of \<^verbatim>\<open>validate_invoices\<close>, every returned result has
  \<^verbatim>\<open>is_valid\<close> true if and only if its error list is empty.
\<close>

theorem valid_iff_no_errors:
  assumes "i < length (fst (validate_invoices invcs))"
  shows "is_valid (fst (validate_invoices invcs) ! i) \<longleftrightarrow>
         errors (fst (validate_invoices invcs) ! i) = []"
proof -
  from assms have i: "i < length invcs" by (simp add: results_length)
  show ?thesis
    unfolding results_nth [OF i]
    by (simp add: mark_duplicate_def per_record_result_def)
qed

theorem valid_iff_no_errors_witness:
  "(1::nat) < length (fst (validate_invoices [sample_invoice, sample_bad_twin])) \<and>
   errors (fst (validate_invoices [sample_invoice, sample_bad_twin]) ! 1) \<noteq> [] \<and>
   is_valid (fst (validate_invoices [sample_invoice, sample_bad_twin]) ! 1) =
     (errors (fst (validate_invoices [sample_invoice, sample_bad_twin]) ! 1) = [])"
proof -
  have len: "(1::nat) < length (fst (validate_invoices [sample_invoice, sample_bad_twin]))"
    by (simp add: results_length)
  have "errors (fst (validate_invoices [sample_invoice, sample_bad_twin]) ! 1) \<noteq> []"
    by (simp add: results_nth mark_duplicate_def per_record_result_def sample_keys)
  with len valid_iff_no_errors [OF len] show ?thesis by blast
qed

text \<open>
  Claim C4.  The summary satisfies \<open>valid_invoices + invalid_invoices = total_invoices\<close>,
  where \<open>total_invoices\<close> is the number of input records, \<open>invalid_invoices\<close> the
  number of results with \<^verbatim>\<open>is_valid\<close> false and \<open>valid_invoices\<close> the number with
  \<^verbatim>\<open>is_valid\<close> true.
\<close>

theorem summary_counts:
  "total_invoices (snd (validate_invoices invcs)) = int (length invcs) \<and>
   invalid_invoices (snd (validate_invoices invcs)) =
     int (length (filter (\<lambda>r. \<not> is_valid r) (fst (validate_invoices invcs)))) \<and>
   valid_invoices (snd (validate_invoices invcs)) =
     int (length (filter (\<lambda>r. is_valid r) (fst (validate_invoices invcs)))) \<and>
   valid_invoices (snd (validate_invoices invcs)) + invalid_invoices (snd (validate_invoices invcs)) =
     total_invoices (snd (validate_invoices invcs))"
proof -
  let ?rs = "fst (validate_invoices invcs)"
  let ?s = "snd (validate_invoices invcs)"
  have t: "total_invoices ?s = int (length invcs)"
    by (simp add: summary_fields results_length)
  have i: "invalid_invoices ?s = int (length (filter (\<lambda>r. \<not> is_valid r) ?rs))"
    by (rule summary_fields)
  have v: "valid_invoices ?s = int (length (filter (\<lambda>r. is_valid r) ?rs))"
    using length_filter_split [of is_valid ?rs]
    by (simp add: summary_fields)
  have s: "valid_invoices ?s + invalid_invoices ?s = total_invoices ?s"
    by (simp add: summary_fields(3))
  from t i v s show ?thesis by blast
qed

section \<open>Line-item errors and constructed invoices\<close>

lemma line_error_names_mem:
  "''_quantity_negative'' \<in> set line_error_names"
  "''_unit_price_negative'' \<in> set line_error_names"
  "''_line_total_negative'' \<in> set line_error_names"
  by (simp_all add: line_error_names_def)

lemma line_item_errors_Cons:
  "line_item_errors idx (item # items) =
     (if quantity item < 0 then [line_error idx ''_quantity_negative''] else []) @
     (if unit_price item < 0 then [line_error idx ''_unit_price_negative''] else []) @
     (if line_total item < 0 then [line_error idx ''_line_total_negative''] else []) @
     line_item_errors (Suc idx) items"
  by (simp add: line_error_def)

lemma line_item_errors_form:
  "e \<in> set (line_item_errors idx items) \<Longrightarrow>
   \<exists>k sfx. e = line_error k sfx \<and> idx \<le> k \<and> k < idx + length items \<and>
     sfx \<in> set line_error_names"
proof (induction items arbitrary: idx)
  case Nil
  then show ?case by simp
next
  case (Cons item items)
  from Cons.prems consider
      (here) sfx where "e = line_error idx sfx" "sfx \<in> set line_error_names"
    | (later) "e \<in> set (line_item_errors (Suc idx) items)"
    unfolding line_item_errors_Cons
    by (auto simp: line_error_names_mem split: if_splits)
  then show ?case
  proof cases
    case here
    then have "e = line_error idx sfx \<and> idx \<le> idx \<and> idx < idx + length (item # items) \<and>
      sfx \<in> set line_error_names" by simp
    then show ?thesis by blast
  next
    case later
    from Cons.IH [OF later] obtain k sfx where
      "e = line_error k sfx" "Suc idx \<le> k" "k < Suc idx + length items"
      "sfx \<in> set line_error_names" by blast
    then have "e = line_error k sfx \<and> idx \<le> k \<and> k < idx + length (item # items) \<and>
      sfx \<in> set line_error_names" by simp
    then show ?thesis by blast
  qed
qed

lemma take_line_error: "take 19 (line_error k sfx) = ''format_error: line_''"
  by (simp add: line_error_def)

lemma line_item_errors_prefix:
  "e \<in> set (line_item_errors idx items) \<Longrightarrow> take 19 e = ''format_error: line_''"
  using line_item_errors_form take_line_error by blast

lemma LineItem_init_nonneg:
  "LineItem_init d q p t = Inr item \<Longrightarrow>
   0 \<le> quantity item \<and> 0 \<le> unit_price item \<and> 0 \<le> line_total item"
  by (auto simp: LineItem_init_def validate_line_total_def Let_def split: if_splits)

lemma LineItems_init_nonneg:
  "LineItems_init raws = Inr items \<Longrightarrow>
   \<forall>item \<in> set items. 0 \<le> quantity item \<and> 0 \<le> unit_price item \<and> 0 \<le> line_total item"
proof (induction raws arbitrary: items)
  case Nil
  then show ?case by simp
next
  case (Cons raw raws)
  then show ?case
    by (auto split: sum.splits dest: LineItem_init_nonneg)
qed

lemma line_item_errors_empty:
  "\<forall>item \<in> set items. 0 \<le> quantity item \<and> 0 \<le> unit_price item \<and> 0 \<le> line_total item \<Longrightarrow>
   line_item_errors idx items = []"
  by (induction items arbitrary: idx) (simp_all add: line_item_errors_Cons not_less [symmetric])

lemma Invoice_init_line_items:
  "Invoice_init raw = Inr invc \<Longrightarrow> line_item_errors 0 (line_items invc) = []"
  by (auto simp: Invoice_init_def split: sum.splits
      dest!: LineItems_init_nonneg intro!: line_item_errors_empty)

lemma not_line_error:
  "take 19 e \<noteq> ''format_error: line_'' \<Longrightarrow> e \<notin> set (line_item_errors idx items)"
  using line_item_errors_prefix by blast

lemma cfr_no_line_errors:
  assumes "line_item_errors 0 (line_items invc) = []"
    and "take 19 e = ''format_error: line_''"
  shows "e \<notin> set (check_format_and_ranges invc)"
proof
  assume "e \<in> set (check_format_and_ranges invc)"
  then have "e \<in> {''format_error: invoice_date_out_of_range'',
      ''format_error: due_date_out_of_range'', ''format_error: currency_invalid'',
      ''format_error: net_total_negative'', ''format_error: tax_amount_negative'',
      ''format_error: gross_total_negative''}"
    unfolding check_format_and_ranges_def assms(1)
    by (auto split: if_splits option.splits)
  with assms(2) show False by auto
qed

text \<open>
  Claim C10.  For every Invoice built by the constructors of the data model (each line
  item by the LineItem constructor, which rejects a negative quantity, unit price or line
  total), the loop over the line items in the format-and-range pass emits nothing: no
  \<^verbatim>\<open>format_error: line_<i>_quantity_negative\<close>, \<^verbatim>\<open>line_<i>_unit_price_negative\<close> or
  \<^verbatim>\<open>line_<i>_line_total_negative\<close> error is among the errors, for any index \<open>i\<close>.
\<close>

theorem constructed_invoice_no_negative_line_errors:
  assumes "Invoice_init raw = Inr invc"
  shows "line_item_errors 0 (line_items invc) = [] \<and>
    ''format_error: line_'' @ str_nat i @ ''_quantity_negative''
       \<notin> set (check_format_and_ranges invc) \<and>
    ''format_error: line_'' @ str_nat i @ ''_unit_price_negative''
       \<notin> set (check_format_and_ranges invc) \<and>
    ''format_error: line_'' @ str_nat i @ ''_line_total_negative''
       \<notin> set (check_format_and_ranges invc)"
proof -
  note e = Invoice_init_line_items [OF assms]
  have "line_error i sfx \<notin> set (check_format_and_ranges invc)" for sfx
    by (rule cfr_no_line_errors [OF e take_line_error])
  then show ?thesis using e unfolding line_error_def by blast
qed

lemma Invoice_init_sample: "Invoice_init sample_with_items = Inr sample_with_items"
  by (simp add: Invoice_init_def LineItem_init_def validate_line_total_def validate_currency_def
      sample_with_items_def sample_invoice_def strip_def is_space_def whitespace_def upper_def
      char_upper_def lowercase_letters_def uppercase_letters_def)

theorem constructed_invoice_no_negative_line_errors_witness:
  "Invoice_init sample_with_items = Inr sample_with_items \<and>
   line_items sample_with_items \<noteq> [] \<and>
   ''format_error: line_'' @ str_nat 0 @ ''_quantity_negative''
      \<notin> set (check_format_and_ranges sample_with_items) \<and>
   ''format_error: line_'' @ str_nat 0 @ ''_unit_price_negative''
      \<notin> set (check_format_and_ranges sample_with_items) \<and>
   ''format_error: line_'' @ str_nat 0 @ ''_line_total_negative''
      \<notin> set (check_format_and_ranges sample_with_items)"
proof -
  have "line_items sample_with_items \<noteq> []"
    by (simp add: sample_with_items_def)
  with constructed_invoice_no_negative_line_errors [OF Invoice_init_sample, of 0]
    Invoice_init_sample
  show ?thesis by blast
qed

section \<open>The date window\<close>

lemma invoice_date_error_iff:
  "''format_error: invoice_date_out_of_range'' \<in> set (check_format_and_ranges invc) \<longleftrightarrow>
   \<not> in_date_range (invoice_date invc)"
  by (simp add: check_format_and_ranges_def not_line_error split: option.splits)

lemma due_date_error_iff:
  "''format_error: due_date_out_of_range'' \<in> set (check_format_and_ranges invc) \<longleftrightarrow>
   (\<exists>dd. due_date invc = Some dd \<and> \<not> in_date_range dd)"
  by (cases "due_date invc") (simp_all add: check_format_and_ranges_def not_line_error)

lemma in_date_range_iff:
  assumes "1 \<le> month d" "1 \<le> day d"
  shows "in_date_range d \<longleftrightarrow>
    2000 \<le> year d \<and> (year d < 2100 \<or> (year d = 2100 \<and> month d = 1 \<and> day d = 1))"
  using assms unfolding in_date_range_def date_le_def date_lt_def min_date_def max_date_def
  by (simp; arith)

text \<open>
  Claim C6, as the code has it.  For every invoice whose dates are calendar dates, the
  format-and-range pass emits \<^verbatim>\<open>format_error: invoice_date_out_of_range\<close> exactly when
  \<^verbatim>\<open>invoice_date\<close> lies outside the window from 2000-01-01 to 2100-01-01 (both
  inclusive), and \<^verbatim>\<open>format_error: due_date_out_of_range\<close> exactly when a present
  \<^verbatim>\<open>due_date\<close> lies outside that window.  In terms of the fields: the date is flagged
  when its year is below 2000 or above 2100, or when it is a day of 2100 after January 1.
\<close>

theorem date_window:
  assumes "date_valid (invoice_date invc)"
    and "case due_date invc of None \<Rightarrow> True | Some dd \<Rightarrow> date_valid dd"
  shows "(''format_error: invoice_date_out_of_range'' \<in> set (check_format_and_ranges invc) \<longleftrightarrow>
            \<not> (date_le \<lparr>year = 2000, month = 1, day = 1\<rparr> (invoice_date invc) \<and>
               date_le (invoice_date invc) \<lparr>year = 2100, month = 1, day = 1\<rparr>)) \<and>
         (''format_error: due_date_out_of_range'' \<in> set (check_format_and_ranges invc) \<longleftrightarrow>
            (\<exists>dd. due_date invc = Some dd \<and>
               \<not> (date_le \<lparr>year = 2000, month = 1, day = 1\<rparr> dd \<and>
                  date_le dd \<lparr>year = 2100, month = 1, day = 1\<rparr>))) \<and>
         (''format_error: invoice_date_out_of_range'' \<in> set (check_format_and_ranges invc) \<longleftrightarrow>
            year (invoice_date invc) < 2000 \<or> 2100 < year (invoice_date invc) \<or>
            (year (invoice_date invc) = 2100 \<and>
               (1 < month (invoice_date invc) \<or> 1 < day (invoice_date invc)))) \<and>
         (''format_error: due_date_out_of_range'' \<in> set (check_format_and_ranges invc) \<longleftrightarrow>
            (\<exists>dd. due_date invc = Some dd \<and>
               (year dd < 2000 \<or> 2100 < year dd \<or>
                (year dd = 2100 \<and> (1 < month dd \<or> 1 < day dd)))))"
proof -
  have r: "\<not> in_date_range d \<longleftrightarrow>
      year d < 2000 \<or> 2100 < year d \<or> (year d = 2100 \<and> (1 < month d \<or> 1 < day d))"
    if "date_valid d" for d
  proof -
    from that have md: "1 \<le> month d" "1 \<le> day d" by (simp_all add: date_valid_def)
    from in_date_range_iff [OF md] md show ?thesis by (simp; arith)
  qed
  have w: "in_date_range d \<longleftrightarrow>
      date_le \<lparr>year = 2000, month = 1, day = 1\<rparr> d \<and> date_le d \<lparr>year = 2100, month = 1, day = 1\<rparr>"
    for d
    by (simp add: in_date_range_def min_date_def max_date_def)
  have a: "''format_error: invoice_date_out_of_range'' \<in> set (check_format_and_ranges invc) \<longleftrightarrow>
      \<not> in_date_range (invoice_date invc)"
    by (rule invoice_date_error_iff)
  have b: "''format_error: due_date_out_of_range'' \<in> set (check_format_and_ranges invc) \<longleftrightarrow>
      (\<exists>dd. due_date invc = Some dd \<and> \<not> in_date_range dd)"
    by (rule due_date_error_iff)
  have c: "(\<exists>dd. due_date invc = Some dd \<and> \<not> in_date_range dd) \<longleftrightarrow>
      (\<exists>dd. due_date invc = Some dd \<and>
         (year dd < 2000 \<or> 2100 < year dd \<or> (year dd = 2100 \<and> (1 < month dd \<or> 1 < day dd))))"
    using assms(2) r by (cases "due_date invc") auto
  have c1: "''format_error: invoice_date_out_of_range'' \<in> set (check_format_and_ranges invc) \<longleftrightarrow>
            \<not> (date_le \<lparr>year = 2000, month = 1, day = 1\<rparr> (invoice_date invc) \<and>
               date_le (invoice_date invc) \<lparr>year = 2100, month = 1, day = 1\<rparr>)"
    unfolding a w ..
  have c2: "''format_error: due_date_out_of_range'' \<in> set (check_format_and_ranges invc) \<longleftrightarrow>
            (\<exists>dd. due_date invc = Some dd \<and>
               \<not> (date_le \<lparr>year = 2000, month = 1, day = 1\<rparr> dd \<and>
                  date_le dd \<lparr>year = 2100, month = 1, day = 1\<rparr>))"
    unfolding b w ..
  have c3: "''format_error: invoice_date_out_of_range'' \<in> set (check_format_and_ranges invc) \<longleftrightarrow>
            year (invoice_date invc) < 2000 \<or> 2100 < year (invoice_date invc) \<or>
            (year (invoice_date invc) = 2100 \<and>
               (1 < month (invoice_date invc) \<or> 1 < day (invoice_date invc)))"
    unfolding a by (rule r [OF assms(1)])
  have c4: "''format_error: due_date_out_of_range'' \<in> set (check_format_and_ranges invc) \<longleftrightarrow>
            (\<exists>dd. due_date invc = Some dd \<and>
               (year dd < 2000 \<or> 2100 < year dd \<or>
                (year dd = 2100 \<and> (1 < month dd \<or> 1 < day dd))))"
    unfolding b by (rule c)
  from c1 c2 c3 c4 show ?thesis by (intro conjI)
qed

theorem date_window_witness:
  "date_valid (invoice_date sample_invoice) \<and> due_date sample_invoice = None \<and>
   ''format_error: invoice_date_out_of_range'' \<notin> set (check_format_and_ranges sample_invoice) \<and>
   ''format_error: due_date_out_of_range'' \<notin> set (check_format_and_ranges sample_invoice)"
proof -
  have v: "date_valid (invoice_date sample_invoice)"
    by (simp add: sample_invoice_def date_valid_def days_in_month_def is_leap_def)
  have d: "due_date sample_invoice = None"
    by (simp add: sample_invoice_def)
  then have v': "case due_date sample_invoice of None \<Rightarrow> True | Some dd \<Rightarrow> date_valid dd"
    by simp
  have y: "year (invoice_date sample_invoice) = 2024"
    by (simp add: sample_invoice_def)
  from date_window [OF v v'] have
    "''format_error: invoice_date_out_of_range'' \<in> set (check_format_and_ranges sample_invoice) \<longleftrightarrow>
       year (invoice_date sample_invoice) < 2000 \<or> 2100 < year (invoice_date sample_invoice) \<or>
       (year (invoice_date sample_invoice) = 2100 \<and>
          (1 < month (invoice_date sample_invoice) \<or> 1 < day (invoice_date sample_invoice)))"
    and "''format_error: due_date_out_of_range'' \<in> set (check_format_and_ranges sample_invoice) \<longleftrightarrow>
       (\<exists>dd. due_date sample_invoice = Some dd \<and>
          (year dd < 2000 \<or> 2100 < year dd \<or>
           (year dd = 2100 \<and> (1 < month dd \<or> 1 < day dd))))"
    by blast+
  with v d y show ?thesis by simp
qed

text \<open>
  Claim C6 as stated fails: 2100-06-15 and 2100-12-31 are dates within year 2100, and
  both are reported as out of range.
\<close>

theorem date_in_2100_flagged:
  "year (invoice_date sample_2100) = 2100 \<and> date_valid (invoice_date sample_2100) \<and>
   due_date sample_2100 = Some \<lparr>year = 2100, month = 12, day = 31\<rparr> \<and>
   date_valid \<lparr>year = 2100, month = 12, day = 31\<rparr> \<and>
   ''format_error: invoice_date_out_of_range'' \<in> set (check_format_and_ranges sample_2100) \<and>
   ''format_error: due_date_out_of_range'' \<in> set (check_format_and_ranges sample_2100)"
  by (simp add: invoice_date_error_iff due_date_error_iff sample_2100_def sample_invoice_def
      in_date_range_def date_le_def date_lt_def min_date_def max_date_def date_valid_def
      days_in_month_def)

section \<open>Order sensitivity of duplicate detection\<close>

lemma duplicate_not_per_record: "''anomaly: duplicate_invoice'' \<notin> set (invoice_errors invc)"
proof -
  have "''anomaly: duplicate_invoice'' \<notin> set (line_item_errors 0 (line_items invc))"
    by (rule not_line_error) simp
  then show ?thesis
    by (simp add: invoice_errors_def check_completeness_def check_format_and_ranges_def
        check_business_rules_def split: option.splits)
qed

lemma results_pair:
  "duplicate_key a = duplicate_key b \<Longrightarrow>
   fst (validate_invoices [a, b]) = [per_record_result a, mark_duplicate (per_record_result b)]"
  by (simp add: results_eq fst_second_pass_Cons del: second_pass.simps(2))

lemma invalid_pair:
  "duplicate_key x = duplicate_key y \<Longrightarrow>
   invalid_invoices (snd (validate_invoices [x, y])) = (if invoice_errors x = [] then 1 else 2)"
  unfolding summary_fields
  by (simp add: results_pair per_record_result_def mark_duplicate_def)

text \<open>
  Claim C7, as the code has it.  For two records that agree on the three components of the
  duplicate key (the seller name lower-cased by \<^verbatim>\<open>str.lower\<close>, the invoice number, the
  invoice date), in either input order the second record of the input receives
  \<^verbatim>\<open>anomaly: duplicate_invoice\<close> and the first does not.  The invalid count of the summary
  is 1 when the first record passes its per-record checks and 2 when it does not; so it is
  the same in both orders exactly when the two records agree on passing their per-record
  checks.
\<close>

theorem order_sensitivity:
  assumes "lower (seller_name a) = lower (seller_name b)"
    and "invoice_number a = invoice_number b"
    and "invoice_date a = invoice_date b"
  shows "''anomaly: duplicate_invoice'' \<notin> set (errors (fst (validate_invoices [a, b]) ! 0)) \<and>
    ''anomaly: duplicate_invoice'' \<in> set (errors (fst (validate_invoices [a, b]) ! 1)) \<and>
    ''anomaly: duplicate_invoice'' \<notin> set (errors (fst (validate_invoices [b, a]) ! 0)) \<and>
    ''anomaly: duplicate_invoice'' \<in> set (errors (fst (validate_invoices [b, a]) ! 1)) \<and>
    invalid_invoices (snd (validate_invoices [a, b])) = (if invoice_errors a = [] then 1 else 2) \<and>
    invalid_invoices (snd (validate_invoices [b, a])) = (if invoice_errors b = [] then 1 else 2) \<and>
    (invalid_invoices (snd (validate_invoices [a, b])) =
       invalid_invoices (snd (validate_invoices [b, a])) \<longleftrightarrow>
     (invoice_errors a = [] \<longleftrightarrow> invoice_errors b = []))"
proof -
  from assms have k: "duplicate_key a = duplicate_key b"
    by (simp add: duplicate_key_def)
  have ab: "fst (validate_invoices [a, b]) = [per_record_result a, mark_duplicate (per_record_result b)]"
    by (rule results_pair [OF k])
  have ba: "fst (validate_invoices [b, a]) = [per_record_result b, mark_duplicate (per_record_result a)]"
    by (rule results_pair [OF k [symmetric]])
  show ?thesis
    unfolding ab ba invalid_pair [OF k] invalid_pair [OF k [symmetric]]
    by (simp add: per_record_result_def mark_duplicate_def duplicate_not_per_record)
qed

theorem order_sensitivity_witness:
  "lower (seller_name sample_cafe) = lower (seller_name sample_cafe_twin) \<and>
   invoice_number sample_cafe = invoice_number sample_cafe_twin \<and>
   invoice_date sample_cafe = invoice_date sample_cafe_twin \<and>
   seller_name sample_cafe \<noteq> seller_name sample_cafe_twin \<and>
   ''anomaly: duplicate_invoice''
      \<notin> set (errors (fst (validate_invoices [sample_cafe, sample_cafe_twin]) ! 0)) \<and>
   ''anomaly: duplicate_invoice''
      \<in> set (errors (fst (validate_invoices [sample_cafe, sample_cafe_twin]) ! 1)) \<and>
   ''anomaly: duplicate_invoice''
      \<notin> set (errors (fst (validate_invoices [sample_cafe_twin, sample_cafe]) ! 0)) \<and>
   ''anomaly: duplicate_invoice''
      \<in> set (errors (fst (validate_invoices [sample_cafe_twin, sample_cafe]) ! 1)) \<and>
   invalid_invoices (snd (validate_invoices [sample_cafe, sample_cafe_twin])) = 1 \<and>
   invalid_invoices (snd (validate_invoices [sample_cafe_twin, sample_cafe])) = 1"
proof -
  have k: "lower (seller_name sample_cafe) = lower (seller_name sample_cafe_twin)"
    "invoice_number sample_cafe = invoice_number sample_cafe_twin"
    "invoice_date sample_cafe = invoice_date sample_cafe_twin"
    by (simp_all add: cafe_keys)
  have ne: "seller_name sample_cafe \<noteq> seller_name sample_cafe_twin"
    by (rule cafe_keys)
  from order_sensitivity [OF k] k ne show ?thesis
    by (simp add: cafe_errors)
qed

text \<open>
  Claim C7 as stated fails: with a valid record and an invalid one that agree on the three
  components of the key, the invalid count is 1 in one order and 2 in the other.
\<close>

theorem invalid_count_depends_on_order:
  "lower (seller_name sample_invoice) = lower (seller_name sample_bad_twin) \<and>
   invoice_number sample_invoice = invoice_number sample_bad_twin \<and>
   invoice_date sample_invoice = invoice_date sample_bad_twin \<and>
   sample_invoice \<noteq> sample_bad_twin \<and>
   invoice_errors sample_invoice = [] \<and>
   invoice_errors sample_bad_twin = [''format_error: currency_invalid''] \<and>
   invalid_invoices (snd (validate_invoices [sample_invoice, sample_bad_twin])) = 1 \<and>
   invalid_invoices (snd (validate_invoices [sample_bad_twin, sample_invoice])) = 2"
proof -
  have k: "duplicate_key sample_invoice = duplicate_key sample_bad_twin"
    by (simp add: sample_keys)
  then have k3: "lower (seller_name sample_invoice) = lower (seller_name sample_bad_twin) \<and>
     invoice_number sample_invoice = invoice_number sample_bad_twin \<and>
     invoice_date sample_invoice = invoice_date sample_bad_twin"
    by (simp only: duplicate_key_eq)
  have ne: "sample_invoice \<noteq> sample_bad_twin"
    by (simp add: sample_invoice_def sample_bad_twin_def)
  from k k3 ne show ?thesis
    by (simp add: invalid_pair sample_errors)
qed

section \<open>The tolerance of the line-item sum\<close>










text \<open>
  With \<^verbatim>\<open>net_total\<close> 100.0 and the float 100.05 the sum is again equal to
  \<^verbatim>\<open>net_total + 0.05\<close> as the program computes it, and the error is not emitted: whether
  the error appears at that sum depends on the amounts.
\<close>

lemma sum_at_net_plus_tolerance_not_flagged:
  "line_items sample_100_05 \<noteq> [] \<and>
   net_total sample_100_05 = 100 \<and>
   map line_total (line_items sample_100_05) = [round64 (10005 / 100)] \<and>
   sum_lines (line_items sample_100_05) = fadd (net_total sample_100_05) tolerance \<and>
   ''business_rule_failed: line_items_net_mismatch'' \<notin> set (check_business_rules sample_100_05)"
  unfolding sample_100_05_def one_item_def sample_invoice_def
  by code_simp

section \<open>Error codes are not repeated within a result\<close>

lemma lt_10_cases:
  "d < 10 \<Longrightarrow> d = 0 \<or> d = 1 \<or> d = 2 \<or> d = 3 \<or> d = 4 \<or> d = 5 \<or> d = 6 \<or> d = 7 \<or> d = 8 \<or> d = (9::nat)"
  by arith

lemma digit_val_digit_char: "d < 10 \<Longrightarrow> digit_val (digit_char d) = d"
  by (drule lt_10_cases) (auto simp: digit_val_def digit_char_def digits_def)

lemma digit_char_in_digits: "d < 10 \<Longrightarrow> digit_char d \<in> set digits"
  by (drule lt_10_cases) (auto simp: digit_char_def digits_def)

lemma nat_of_digits_snoc: "nat_of_digits (s @ [c]) = 10 * nat_of_digits s + digit_val c"
  by (simp add: nat_of_digits_def)

lemma nat_of_digits_str_nat: "nat_of_digits (str_nat n) = n"
proof (induction n rule: str_nat.induct)
  case (1 n)
  show ?case
  proof (cases "n < 10")
    case True
    then show ?thesis
      by (subst str_nat.simps) (simp add: nat_of_digits_def digit_val_digit_char)
  next
    case False
    with "1.IH" have "nat_of_digits (str_nat (n div 10)) = n div 10" by simp
    with False show ?thesis
      by (subst str_nat.simps) (simp add: nat_of_digits_snoc digit_val_digit_char)
  qed
qed

lemma str_nat_inj: "str_nat m = str_nat n \<Longrightarrow> m = n"
  by (metis nat_of_digits_str_nat)

lemma str_nat_digits: "set (str_nat n) \<subseteq> set digits"
proof (induction n rule: str_nat.induct)
  case (1 n)
  show ?case
  proof (cases "n < 10")
    case True
    then show ?thesis
      by (subst str_nat.simps) (simp add: digit_char_in_digits)
  next
    case False
    with "1.IH" have "set (str_nat (n div 10)) \<subseteq> set digits" by simp
    with False show ?thesis
      by (subst str_nat.simps) (simp add: digit_char_in_digits)
  qed
qed

lemma takeWhile_str_nat:
  assumes "sfx \<in> set line_error_names"
  shows "takeWhile (\<lambda>c. c \<in> set digits) (str_nat n @ sfx) = str_nat n"
proof -
  from assms obtain r where sfx: "sfx = CHR ''_'' # r"
    by (auto simp: line_error_names_def)
  have "CHR ''_'' \<notin> set digits" by (simp add: digits_def)
  moreover have "\<forall>c \<in> set (str_nat n). c \<in> set digits" using str_nat_digits by blast
  ultimately show ?thesis unfolding sfx
    by (simp add: takeWhile_append2)
qed

lemma line_error_inj:
  assumes "line_error k s = line_error k' s'"
    and "s \<in> set line_error_names" "s' \<in> set line_error_names"
  shows "k = k' \<and> s = s'"
proof -
  from assms(1) have eq: "str_nat k @ s = str_nat k' @ s'"
    by (simp add: line_error_def)
  then have "takeWhile (\<lambda>c. c \<in> set digits) (str_nat k @ s) =
             takeWhile (\<lambda>c. c \<in> set digits) (str_nat k' @ s')" by simp
  then have "str_nat k = str_nat k'"
    by (simp add: takeWhile_str_nat assms(2,3))
  with eq show ?thesis by (simp add: str_nat_inj)
qed

lemma distinct_line_item_errors: "distinct (line_item_errors idx items)"
proof (induction items arbitrary: idx)
  case Nil
  show ?case by simp
next
  case (Cons item items)
  have later: "line_error idx sfx \<notin> set (line_item_errors (Suc idx) items)"
    if "sfx \<in> set line_error_names" for sfx
  proof
    assume "line_error idx sfx \<in> set (line_item_errors (Suc idx) items)"
    from line_item_errors_form [OF this] obtain k sfx' where
      "line_error idx sfx = line_error k sfx'" "Suc idx \<le> k" "sfx' \<in> set line_error_names"
      by blast
    with line_error_inj [OF this(1) that this(3)] show False by simp
  qed
  have ne: "line_error idx s \<noteq> line_error idx s'" if "s \<noteq> s'" for s s'
    using that by (simp add: line_error_def)
  show ?case
    unfolding line_item_errors_Cons
    using Cons.IH [of "Suc idx"]
    by (simp add: later line_error_names_mem ne)
qed

lemma check_completeness_hd: "e \<in> set (check_completeness invc) \<Longrightarrow> hd e = CHR ''m''"
  by (auto simp: check_completeness_def split: if_splits)

lemma check_business_rules_hd: "e \<in> set (check_business_rules invc) \<Longrightarrow> hd e = CHR ''b''"
  by (auto simp: check_business_rules_def split: if_splits option.splits)

lemma cond_filter:
  "(if b then [e] else []) @ map snd (filter fst ps) @ rest =
   map snd (filter fst ((b, e) # ps)) @ rest"
  by simp

lemma check_format_and_ranges_eq:
  "check_format_and_ranges invc =
     map snd (filter fst (format_checks invc)) @ line_item_errors 0 (line_items invc)"
proof -
  have due: "(case due_date invc of None \<Rightarrow> []
        | Some dd \<Rightarrow> if \<not> in_date_range dd then [''format_error: due_date_out_of_range''] else []) =
      (if (case due_date invc of None \<Rightarrow> False | Some dd \<Rightarrow> \<not> in_date_range dd)
       then [''format_error: due_date_out_of_range''] else [])"
    by (simp split: option.splits)
  have base: "line_item_errors 0 (line_items invc) =
      map snd (filter fst []) @ line_item_errors 0 (line_items invc)"
    by simp
  show ?thesis
    unfolding check_format_and_ranges_def format_checks_def due
    by (subst base) (simp only: cond_filter)
qed

lemma format_checks_names: "map snd (format_checks invc) = format_error_names"
  by (simp add: format_checks_def format_error_names_def)

lemma distinct_format_error_names: "distinct format_error_names"
  by (simp add: format_error_names_def)

lemma format_error_names_not_line:
  "e \<in> set format_error_names \<Longrightarrow> take 19 e \<noteq> ''format_error: line_''"
  by (auto simp: format_error_names_def)

lemma format_error_names_hd: "e \<in> set format_error_names \<Longrightarrow> hd e = CHR ''f''"
  by (auto simp: format_error_names_def)

lemma fixed_format_errors_subset:
  "set (map snd (filter fst (format_checks invc))) \<subseteq> set format_error_names"
proof -
  have "set (map snd (filter fst ps)) \<subseteq> set (map snd ps)" for ps :: "(bool \<times> string) list"
    by auto
  from this [of "format_checks invc"] show ?thesis
    by (simp only: format_checks_names)
qed

lemma check_format_and_ranges_hd: "e \<in> set (check_format_and_ranges invc) \<Longrightarrow> hd e = CHR ''f''"
proof -
  assume "e \<in> set (check_format_and_ranges invc)"
  then consider "e \<in> set format_error_names"
    | "e \<in> set (line_item_errors 0 (line_items invc))"
    unfolding check_format_and_ranges_eq using fixed_format_errors_subset by auto
  then show ?thesis
  proof cases
    case 1
    then show ?thesis by (rule format_error_names_hd)
  next
    case 2
    from line_item_errors_form [OF this] show ?thesis
      by (auto simp: line_error_def)
  qed
qed

lemma distinct_check_completeness: "distinct (check_completeness invc)"
  by (simp add: check_completeness_def)

lemma distinct_check_business_rules: "distinct (check_business_rules invc)"
  by (simp add: check_business_rules_def split: option.splits)

lemma distinct_check_format_and_ranges: "distinct (check_format_and_ranges invc)"
proof -
  have "distinct (map snd (filter fst (format_checks invc)))"
    by (rule distinct_map_filter) (simp add: format_checks_names distinct_format_error_names)
  moreover have "set (map snd (filter fst (format_checks invc))) \<inter>
      set (line_item_errors 0 (line_items invc)) = {}"
    using fixed_format_errors_subset format_error_names_not_line line_item_errors_prefix
    by blast
  ultimately show ?thesis
    unfolding check_format_and_ranges_eq
    by (simp add: distinct_line_item_errors)
qed

lemma distinct_invoice_errors: "distinct (invoice_errors invc)"
proof -
  have "set (check_completeness invc) \<inter> set (check_format_and_ranges invc) = {}"
    using check_completeness_hd check_format_and_ranges_hd by fastforce
  moreover have "set (check_completeness invc) \<inter> set (check_business_rules invc) = {}"
    using check_completeness_hd check_business_rules_hd by fastforce
  moreover have "set (check_format_and_ranges invc) \<inter> set (check_business_rules invc) = {}"
    using check_format_and_ranges_hd check_business_rules_hd by fastforce
  ultimately show ?thesis
    unfolding invoice_errors_def
    by (simp add: distinct_check_completeness distinct_check_format_and_ranges
        distinct_check_business_rules Int_Un_distrib)
qed

section \<open>The error counter\<close>

lemma counter_get_incr:
  "counter_get (counter_incr c e) x = counter_get c x + (if x = e then 1 else 0)"
  by (simp add: counter_get_def counter_incr_def)

lemma counter_get_empty: "counter_get Map.empty x = 0"
  by (simp add: counter_get_def)

lemma counter_get_foldl:
  "counter_get (foldl counter_incr c es) x = counter_get c x + int (count_list es x)"
  by (induction es arbitrary: c) (simp_all add: counter_get_incr)

lemma positive_counts_incr:
  assumes "positive_counts c"
  shows "positive_counts (counter_incr c e)"
proof -
  have "0 \<le> (case c e of None \<Rightarrow> 0 | Some n \<Rightarrow> n)"
  proof (cases "c e")
    case None
    then show ?thesis by simp
  next
    case (Some n)
    with assms have "0 < n" by (simp add: positive_counts_def)
    with Some show ?thesis by simp
  qed
  with assms show ?thesis
    by (simp add: positive_counts_def counter_incr_def)
qed

lemma positive_counts_foldl: "positive_counts c \<Longrightarrow> positive_counts (foldl counter_incr c es)"
  by (induction es arbitrary: c) (simp_all add: positive_counts_incr)

lemma positive_counts_second_pass:
  "positive_counts c \<Longrightarrow> positive_counts (snd (second_pass ps seen c))"
proof (induction ps arbitrary: seen c)
  case Nil
  then show ?case by simp
next
  case (Cons p ps)
  obtain res invc where p: "p = (res, invc)" by (cases p)
  show ?case
    unfolding p snd_second_pass_Cons
    using Cons.IH Cons.prems by (simp add: positive_counts_incr)
qed

lemma occurrences_Cons:
  "occurrences (r # rs) x = int (count_list (errors r) x) + occurrences rs x"
  by (simp add: occurrences_def)

lemma occurrences_Nil: "occurrences [] x = 0"
  by (simp add: occurrences_def)

lemma errors_mark_duplicate:
  "int (count_list (errors (mark_duplicate res)) x) =
   int (count_list (errors res) x) + (if x = ''anomaly: duplicate_invoice'' then 1 else 0)"
  by (simp add: mark_duplicate_def)

lemma counter_second_pass:
  "counter_get (snd (second_pass ps seen c)) x =
     counter_get c x + occurrences (fst (second_pass ps seen c)) x - occurrences (map fst ps) x"
proof (induction ps arbitrary: seen c)
  case Nil
  show ?case by (simp add: occurrences_Nil)
next
  case (Cons p ps)
  obtain res invc where p: "p = (res, invc)" by (cases p)
  show ?case
  proof (cases "seen (duplicate_key invc) \<noteq> None")
    case True
    then show ?thesis
      unfolding p snd_second_pass_Cons fst_second_pass_Cons
      by (simp add: Cons.IH occurrences_Cons errors_mark_duplicate counter_get_incr
          del: second_pass.simps)
  next
    case False
    have "counter_get (snd (second_pass ps (seen(duplicate_key invc \<mapsto> invoice_number invc)) c)) x =
        counter_get c x +
        occurrences (fst (second_pass ps (seen(duplicate_key invc \<mapsto> invoice_number invc)) c)) x -
        occurrences (map fst ps) x"
      by (rule Cons.IH)
    then show ?thesis
      unfolding p snd_second_pass_Cons fst_second_pass_Cons
      by (simp only: False if_False occurrences_Cons list.map fst_conv)
  qed
qed

lemma count_list_concat:
  "int (count_list (concat xss) x) = (\<Sum>xs\<leftarrow>xss. int (count_list xs x))"
  by (induction xss) simp_all

lemma occurrences_first_pass:
  "occurrences (map per_record_result invcs) x =
   int (count_list (concat (map invoice_errors invcs)) x)"
  by (simp add: occurrences_def count_list_concat per_record_result_def comp_def)

lemma error_counts_eq:
  "error_counts (snd (validate_invoices invcs)) =
     snd (second_pass (zip (map per_record_result invcs) invcs) Map.empty
            (foldl counter_incr Map.empty (concat (map invoice_errors invcs))))"
  by (simp add: validate_invoices_def first_pass_eq case_prod_beta Let_def)

lemma counter_get_error_counts:
  "counter_get (error_counts (snd (validate_invoices invcs))) x =
   occurrences (fst (validate_invoices invcs)) x"
  unfolding error_counts_eq results_eq counter_second_pass
  by (simp add: counter_get_foldl occurrences_first_pass counter_get_empty)

lemma positive_error_counts: "positive_counts (error_counts (snd (validate_invoices invcs)))"
  unfolding error_counts_eq
  by (intro positive_counts_second_pass positive_counts_foldl) (simp add: positive_counts_def)

lemma distinct_result_errors:
  assumes "r \<in> set (fst (validate_invoices invcs))"
  shows "distinct (errors r)"
proof -
  from assms obtain i where i: "i < length invcs" and r: "r = fst (validate_invoices invcs) ! i"
    by (metis in_set_conv_nth results_length)
  show ?thesis
    unfolding r results_nth [OF i]
    by (simp add: mark_duplicate_def per_record_result_def distinct_invoice_errors
        duplicate_not_per_record)
qed

lemma count_list_distinct:
  "distinct xs \<Longrightarrow> int (count_list xs x) = (if x \<in> set xs then 1 else 0)"
  by (induction xs) auto

lemma occurrences_distinct:
  "\<forall>r \<in> set rs. distinct (errors r) \<Longrightarrow>
   occurrences rs x = int (length (filter (\<lambda>r. x \<in> set (errors r)) rs))"
  by (induction rs) (simp_all add: occurrences_Nil occurrences_Cons count_list_distinct)

text \<open>
  Claim C5.  For every input list and every error code that appears in a returned result,
  \<open>error_counts\<close> of the summary maps the code to the number of results whose error
  list contains it.  (The counter is incremented once per occurrence; no code occurs twice
  in one result.)
\<close>

theorem error_counts_per_result:
  assumes "r \<in> set (fst (validate_invoices invcs))" and "code \<in> set (errors r)"
  shows "error_counts (snd (validate_invoices invcs)) code =
     Some (int (length (filter (\<lambda>r. code \<in> set (errors r)) (fst (validate_invoices invcs)))))"
proof -
  let ?rs = "fst (validate_invoices invcs)"
  let ?c = "error_counts (snd (validate_invoices invcs))"
  let ?n = "int (length (filter (\<lambda>r. code \<in> set (errors r)) ?rs))"
  have "\<forall>r \<in> set ?rs. distinct (errors r)"
    using distinct_result_errors by blast
  then have n: "counter_get ?c code = ?n"
    by (simp add: counter_get_error_counts occurrences_distinct)
  from assms have "filter (\<lambda>r. code \<in> set (errors r)) ?rs \<noteq> []"
    by (auto simp: filter_empty_conv)
  then have pos: "0 < ?n" by simp
  with n have "?c code \<noteq> None"
    by (auto simp: counter_get_def split: option.splits)
  then obtain m where m: "?c code = Some m" by blast
  with n show ?thesis by (simp add: counter_get_def)
qed

theorem error_counts_per_result_witness:
  "fst (validate_invoices [sample_bad_twin, sample_bad_twin]) ! 1
     \<in> set (fst (validate_invoices [sample_bad_twin, sample_bad_twin])) \<and>
   ''format_error: currency_invalid''
     \<in> set (errors (fst (validate_invoices [sample_bad_twin, sample_bad_twin]) ! 1)) \<and>
   errors (fst (validate_invoices [sample_bad_twin, sample_bad_twin]) ! 1) =
     [''format_error: currency_invalid'', ''anomaly: duplicate_invoice''] \<and>
   error_counts (snd (validate_invoices [sample_bad_twin, sample_bad_twin]))
     ''format_error: currency_invalid'' = Some 2"
proof -
  let ?l = "[sample_bad_twin, sample_bad_twin]"
  have rs: "fst (validate_invoices ?l) =
      [per_record_result sample_bad_twin, mark_duplicate (per_record_result sample_bad_twin)]"
    by (rule results_pair) simp
  have e0: "errors (per_record_result sample_bad_twin) = [''format_error: currency_invalid'']"
    by (simp add: per_record_result_def sample_errors)
  have e1: "errors (mark_duplicate (per_record_result sample_bad_twin)) =
      [''format_error: currency_invalid'', ''anomaly: duplicate_invoice'']"
    by (simp add: mark_duplicate_def e0)
  have mem: "fst (validate_invoices ?l) ! 1 \<in> set (fst (validate_invoices ?l))"
    by (simp add: rs)
  have code: "''format_error: currency_invalid'' \<in> set (errors (fst (validate_invoices ?l) ! 1))"
    by (simp add: rs e1)
  have n: "length (filter (\<lambda>r. ''format_error: currency_invalid'' \<in> set (errors r))
             (fst (validate_invoices ?l))) = 2"
    by (simp add: rs e0 e1)
  from error_counts_per_result [OF mem code] have
    "error_counts (snd (validate_invoices ?l)) ''format_error: currency_invalid'' = Some 2"
    unfolding n by simp
  with mem code show ?thesis by (simp add: rs e1)
qed

section \<open>Extraction\<close>

subsection \<open>Cleaned text has no column separators\<close>

text \<open>
  \<open>clean_text\<close> collapses every run of whitespace within a line to one space, so no line
  of a cleaned text splits at runs of two or more whitespace characters, and the line-item
  extractor finds no item in it.
\<close>

lemma double_space_Cons:
  "double_space (c # cs) \<longleftrightarrow> (cs \<noteq> [] \<and> is_space c \<and> is_space (hd cs)) \<or> double_space cs"
  by (cases cs) auto

lemma double_space_append:
  "double_space (xs @ ys) \<longleftrightarrow>
     double_space xs \<or> double_space ys \<or>
     (xs \<noteq> [] \<and> ys \<noteq> [] \<and> is_space (last xs) \<and> is_space (hd ys))"
proof (induction xs)
  case Nil
  show ?case by simp
next
  case (Cons x xs)
  show ?case
  proof (cases xs)
    case Nil
    then show ?thesis by (auto simp: double_space_Cons)
  next
    case (Cons y zs)
    with Cons.IH show ?thesis
      by (auto simp: double_space_Cons)
  qed
qed

lemma double_space_rev: "double_space (rev s) \<longleftrightarrow> double_space s"
proof (induction s)
  case Nil
  show ?case by simp
next
  case (Cons c cs)
  then show ?case
    by (auto simp: double_space_append double_space_Cons last_rev hd_rev)
qed

lemma double_space_dropWhile: "\<not> double_space s \<Longrightarrow> \<not> double_space (dropWhile P s)"
proof -
  assume a: "\<not> double_space s"
  have "\<not> double_space (takeWhile P s @ dropWhile P s)"
    unfolding takeWhile_dropWhile_id by (rule a)
  then show ?thesis unfolding double_space_append by blast
qed

lemma double_space_strip: "\<not> double_space s \<Longrightarrow> \<not> double_space (strip s)"
  by (simp add: strip_def double_space_rev double_space_dropWhile)

lemma is_space_blank: "is_space (CHR '' '')"
  by (simp add: is_space_def whitespace_def)

lemma collapse_spaces_from_single:
  "\<not> double_space (collapse_spaces_from b s) \<and>
   (b \<longrightarrow> collapse_spaces_from b s = [] \<or> \<not> is_space (hd (collapse_spaces_from b s)))"
proof (induction s arbitrary: b)
  case Nil
  show ?case by simp
next
  case (Cons c cs)
  from Cons.IH [of True] Cons.IH [of False] show ?case
    by (auto simp: double_space_Cons is_space_blank)
qed

lemma double_space_collapse_spaces: "\<not> double_space (collapse_spaces s)"
  by (simp add: collapse_spaces_def collapse_spaces_from_single)

lemma hd_strip: "strip s \<noteq> [] \<Longrightarrow> \<not> is_space (hd (strip s))"
proof -
  assume ne: "strip s \<noteq> []"
  let ?t = "dropWhile is_space s"
  let ?u = "dropWhile is_space (rev ?t)"
  from ne have u: "?u \<noteq> []" by (simp add: strip_def)
  then have t: "?t \<noteq> []" by (auto simp del: dropWhile_eq_Nil_conv)
  have "rev ?t = takeWhile is_space (rev ?t) @ ?u" by simp
  then have "last (rev ?t) = last ?u" using u by (metis last_appendR)
  then have "last ?u = hd ?t" using t by (simp add: last_rev)
  moreover have "\<not> is_space (hd ?t)" using t by (rule hd_dropWhile)
  moreover have "hd (strip s) = last ?u" using u by (simp add: strip_def hd_rev)
  ultimately show ?thesis by simp
qed

lemma last_strip: "strip s \<noteq> [] \<Longrightarrow> \<not> is_space (last (strip s))"
proof -
  assume ne: "strip s \<noteq> []"
  let ?u = "dropWhile is_space (rev (dropWhile is_space s))"
  from ne have u: "?u \<noteq> []" by (simp add: strip_def)
  then have "\<not> is_space (hd ?u)" by (rule hd_dropWhile)
  moreover have "last (strip s) = hd ?u" using u by (simp add: strip_def last_rev)
  ultimately show ?thesis by simp
qed

lemma join_clean_lines:
  "\<forall>l \<in> set ls. clean_line l \<Longrightarrow>
   \<not> double_space (join [CHR 0x0A] ls) \<and>
   (ls \<noteq> [] \<longrightarrow> join [CHR 0x0A] ls \<noteq> [] \<and> \<not> is_space (hd (join [CHR 0x0A] ls)))"
proof (induction "[CHR 0x0A]" ls rule: join.induct)
  case 1
  show ?case by simp
next
  case (2 p)
  then show ?case by (simp add: clean_line_def)
next
  case (3 p q ps)
  from "3.prems" have p: "clean_line p" and rest: "\<forall>l \<in> set (q # ps). clean_line l"
    by simp_all
  from "3.hyps" [OF rest] have
    r: "\<not> double_space (join [CHR 0x0A] (q # ps))"
      "join [CHR 0x0A] (q # ps) \<noteq> []"
      "\<not> is_space (hd (join [CHR 0x0A] (q # ps)))"
    by simp_all
  from p r show ?case
    by (simp add: clean_line_def double_space_append double_space_Cons hd_append)
qed

lemma clean_text_single_spaced: "\<not> double_space (clean_text t)"
proof -
  let ?ls = "filter (\<lambda>line. line \<noteq> []) (map (\<lambda>line. strip (collapse_spaces line)) (splitlines t))"
  have "\<forall>l \<in> set ?ls. clean_line l"
    by (auto simp: clean_line_def hd_strip last_strip double_space_strip
        double_space_collapse_spaces)
  from join_clean_lines [OF this] show ?thesis
    by (simp add: clean_text_def Let_def)
qed

lemma splitlines_from_infix:
  "l \<in> set (splitlines_from cur s) \<Longrightarrow> \<exists>pre post. rev cur @ s = pre @ l @ post"
proof (induction cur s rule: splitlines_from.induct)
  case (1 cur)
  then have "l = rev cur" by (simp split: if_splits)
  then have "rev cur @ [] = [] @ l @ []" by simp
  then show ?case by blast
next
  case (2 cur c)
  then show ?case
  proof (cases "c \<in> set linebreaks")
    case True
    with 2 have "l = rev cur" by simp
    then have "rev cur @ [c] = [] @ l @ [c]" by simp
    then show ?thesis by blast
  next
    case False
    with 2 have "l = rev (c # cur)" by simp
    then have "rev cur @ [c] = [] @ l @ []" by simp
    then show ?thesis by blast
  qed
next
  case (3 cur c d cs)
  show ?case
  proof (cases "c = CHR 0x0D \<and> d = CHR 0x0A")
    case True
    with "3.prems" consider "l = rev cur" | "l \<in> set (splitlines_from [] cs)" by auto
    then show ?thesis
    proof cases
      case 1
      then have "rev cur @ c # d # cs = [] @ l @ (c # d # cs)" by simp
      then show ?thesis by blast
    next
      case 2
      from "3.IH"(1) [OF True 2] obtain pre post where "cs = pre @ l @ post" by auto
      then have "rev cur @ c # d # cs = (rev cur @ c # d # pre) @ l @ post" by simp
      then show ?thesis by blast
    qed
  next
    case nocrlf: False
    show ?thesis
    proof (cases "c \<in> set linebreaks")
      case True
      with nocrlf "3.prems" consider "l = rev cur" | "l \<in> set (splitlines_from [] (d # cs))"
        by auto
      then show ?thesis
      proof cases
        case 1
        then have "rev cur @ c # d # cs = [] @ l @ (c # d # cs)" by simp
        then show ?thesis by blast
      next
        case 2
        from "3.IH"(2) [OF nocrlf True 2] obtain pre post where "d # cs = pre @ l @ post" by auto
        then have "rev cur @ c # d # cs = (rev cur @ [c] @ pre) @ l @ post" by simp
        then show ?thesis by blast
      qed
    next
      case False
      with nocrlf "3.prems" have "l \<in> set (splitlines_from (c # cur) (d # cs))" by auto
      from "3.IH"(3) [OF nocrlf False this] show ?thesis by simp
    qed
  qed
qed

lemma splitlines_single_spaced:
  assumes "\<not> double_space s" and "l \<in> set (splitlines s)"
  shows "\<not> double_space l"
proof -
  from assms(2) obtain pre post where "s = pre @ l @ post"
    using splitlines_from_infix [of l "[]" s] by (auto simp: splitlines_def)
  with assms(1) show ?thesis by (simp add: double_space_append)
qed

lemma split_spaces_from_single:
  "length ws \<le> 1 \<Longrightarrow> \<not> double_space (rev ws @ s) \<Longrightarrow> \<forall>w \<in> set ws. is_space w \<Longrightarrow>
   split_spaces_from cur ws s = [rev cur @ rev ws @ s]"
proof (induction s arbitrary: cur ws)
  case Nil
  then show ?case by simp
next
  case (Cons c cs)
  show ?case
  proof (cases "is_space c")
    case True
    have "ws = []"
    proof (rule ccontr)
      assume "ws \<noteq> []"
      with Cons.prems(1) obtain w where ws: "ws = [w]" by (cases ws) auto
      with Cons.prems(3) have "is_space w" by simp
      with True Cons.prems(2) ws show False by simp
    qed
    with Cons.prems(2) have nd: "\<not> double_space (rev [c] @ cs)" by simp
    have "split_spaces_from cur [c] cs = [rev cur @ rev [c] @ cs]"
      by (rule Cons.IH [OF _ nd]) (simp_all add: True)
    with True \<open>ws = []\<close> show ?thesis by simp
  next
    case False
    from Cons.prems(2) have "\<not> double_space cs"
      by (simp add: double_space_append double_space_Cons)
    then have "split_spaces_from (c # ws @ cur) [] cs = [rev (c # ws @ cur) @ rev [] @ cs]"
      by (intro Cons.IH) simp_all
    with False Cons.prems(1) show ?thesis by simp
  qed
qed

lemma split_spaces_single: "\<not> double_space s \<Longrightarrow> split_spaces s = [s]"
  using split_spaces_from_single [of "[]" s "[]"] by (simp add: split_spaces_def)

lemma items_loop_no_columns:
  "\<forall>l \<in> set ls. length (split_spaces (strip l)) < 3 \<Longrightarrow> items_loop pyfloat ls items = Inr items"
  by (induction ls) (simp_all add: Let_def)

lemma extract_line_items_clean_text: "extract_line_items pyfloat (clean_text t) = Inr []"
proof -
  let ?ls = "splitlines (clean_text t)"
  have one: "length (split_spaces (strip l)) < 3" if "l \<in> set ?ls" for l
  proof -
    from that have "\<not> double_space l"
      by (rule splitlines_single_spaced [OF clean_text_single_spaced])
    then have "split_spaces (strip l) = [strip l]"
      by (intro split_spaces_single double_space_strip)
    then show ?thesis by simp
  qed
  have "items_loop pyfloat (drop k ?ls) [] = Inr []" for k
    by (rule items_loop_no_columns) (auto dest: in_set_dropD one)
  then show ?thesis
    by (simp add: extract_line_items_def Let_def split: option.splits)
qed

subsection \<open>The invoice number and the whole pipeline\<close>

lemma extract_invoice_number_raises:
  "extract_invoice_number search text = Inl (NameError ''re'')"
  by (simp add: extract_invoice_number_def load_global_def module_globals_def)

text \<open>
  Claim C1 says that extraction never raises and always returns a complete record with the
  documented fallbacks.  The code does the opposite: \<open>extract_invoice_number\<close> raises
  NameError on every text, because it reads \<^verbatim>\<open>re.IGNORECASE\<close> and the module never
  imports \<^verbatim>\<open>re\<close>; and \<open>extract_invoice_from_pdf\<close>, which calls it after the other
  extractors, raises that NameError for every path and every page text.
\<close>

theorem extraction_always_raises:
  "extract_invoice_number search text = Inl (NameError ''re'') \<and>
   extract_invoice_from_pdf search strptime pyfloat today path pages_text =
     Inl (NameError ''re'')"
  by (simp add: extract_invoice_from_pdf_def extract_text_from_pdf_def
      extract_line_items_clean_text extract_invoice_number_raises Let_def case_prod_beta)

text \<open>
  Within \<open>extract_invoice_from_pdf\<close> the line-item extractor always returns the empty
  list, whatever the pages hold.
\<close>

theorem pipeline_extracts_no_line_items:
  "extract_line_items pyfloat (extract_text_from_pdf pages_text) = Inr []"
  by (simp add: extract_text_from_pdf_def extract_line_items_clean_text)

subsection \<open>Line totals\<close>

text \<open>
  Claim C8 says that the line total of an extracted item is the last segment parsed as a
  number, with \<open>quantity * unit_price\<close> only when the last segment cannot be parsed.  The
  code writes \<^verbatim>\<open>parse_float_safe(parts[-1]) or (qty * unit)\<close>, and a parsed 0.0 is false
  in Python: the item line \<^verbatim>\<open>Free sample   2   5.00   0.00\<close> gets the line total 10, not 0.
  (An item line with a negative number gives no item at all: the LineItem constructor
  raises.)
\<close>

theorem zero_line_total_replaced:
  "split_spaces (strip ''Free sample   2   5.00   0.00'') =
     [''Free sample'', ''2'', ''5.00'', ''0.00''] \<and>
   parse_float_safe float_decimal ''0.00'' = Some 0 \<and>
   extract_line_items float_decimal sample_zero_total_text =
     Inr [\<lparr>description = ''Free sample'', quantity = 2, unit_price = 5, line_total = 10\<rparr>] \<and>
   extract_line_items float_decimal sample_negative_text = Inl (ValidationError ''quantity'')"
  unfolding sample_zero_total_text_def sample_negative_text_def sample_header_def
  by code_simp

end
